theory Spec2Isabelle
  imports Main
begin

section \<open>The callback URL provider of the browser URL service\<close>

text \<open>
  Two revisions of \<^verbatim>\<open>SelfhostURLCallbackProvider\<close> are embedded here.
  \<^item> The revision with \<^verbatim>\<open>FETCH_INTERVAL\<close>, \<^verbatim>\<open>FETCH_TIMEOUT\<close>, \<^verbatim>\<open>periodicFetchCallback\<close> and
    \<^verbatim>\<open>doCreateUri\<close> keeps the names of the source: \<open>create\<close>, \<open>periodicFetchCallback\<close>,
    \<open>doCreateUri\<close>.
  \<^item> The revision of \<^verbatim>\<open>urlService.ts\<close> that builds \<^verbatim>\<open>baseAppUriRaw\<close> and polls with
    \<^verbatim>\<open>doFetch\<close> has no timeout; its \<^verbatim>\<open>create\<close> is called \<open>create_doFetch\<close> here.

  Strings are byte strings: a JavaScript string is read as its UTF-8 encoding, and a
  surrogate that has no partner as the three bytes that the same arithmetic gives it
  (\<^verbatim>\<open>ED\<close>, then a byte from \<^verbatim>\<open>A0\<close> to \<^verbatim>\<open>BF\<close>, then a byte from \<^verbatim>\<open>80\<close> to \<^verbatim>\<open>BF\<close>). Time is in
  milliseconds, a natural number. An asynchronous chain is followed to its end: the state
  that \<open>periodicFetchCallback\<close> returns is the state once no timer and no request of the
  chain is pending; \<open>doFetch\<close>, which need not end, is followed for a bounded number of
  requests. A timer fires exactly when its delay has passed.
\<close>

subsection \<open>Data\<close>

text \<open>
  What can be thrown: by \<^verbatim>\<open>JSON.parse\<close> on a body that is not JSON, by \<^verbatim>\<open>forEach\<close> on a
  parsed value that is not an array, by \<^verbatim>\<open>encodeURIComponent\<close> on a string with a lone
  surrogate, by \<^verbatim>\<open>URI.revive\<close> on a value it cannot make a URI of, and by a request that
  fails.
\<close>

datatype error = SyntaxError | TypeError | URIError | ReviveError | RequestFailed

record URI =
  scheme :: string
  authority :: string
  path :: string
  query :: string
  fragment :: string

text \<open>A record of URI components: the fields of a JSON object, each possibly absent.\<close>

record UriComponents =
  c_scheme :: "string option"
  c_authority :: "string option"
  c_path :: "string option"
  c_query :: "string option"
  c_fragment :: "string option"

text \<open>
  An element of the parsed array, as \<^verbatim>\<open>URI.revive\<close> meets it: a record of URI components,
  or a value on which \<^verbatim>\<open>URI.revive\<close> throws the given error.
\<close>

datatype element = Components UriComponents | Unrevivable error

text \<open>\<^verbatim>\<open>IURLCreateOptions\<close>: the three fields that \<^verbatim>\<open>create\<close> destructures, each optional.\<close>

record IURLCreateOptions =
  o_path :: "string option"
  o_query :: "string option"
  o_fragment :: "string option"

datatype CancellationToken = CancellationToken_None | CancellationToken_Cancelled

text \<open>A request as handed to \<^verbatim>\<open>requestService.request\<close>, with the time it was issued.\<close>

record sent_request =
  url :: string
  token :: CancellationToken
  sent_at :: nat

text \<open>
  What a request resolves to: the bytes of the body (\<^verbatim>\<open>streamToBuffer\<close>) and the time that
  passed between issuing the request and holding the whole body.
\<close>

record response =
  content :: string
  took :: nat

text \<open>
  The platform around the provider. \<^verbatim>\<open>URI.parse\<close> and \<^verbatim>\<open>URI.toString(true)\<close> of
  \<^verbatim>\<open>vs/base/common/uri\<close> are not among the sources: they are parameters. So is \<open>JSON_parse\<close>,
  which stands for \<^verbatim>\<open>JSON.parse\<close> followed by the cast to \<^verbatim>\<open>UriComponents[]\<close>: it gives the
  elements of the array that \<^verbatim>\<open>forEach\<close> then visits, or the error that is thrown before
  the first element is visited (by \<^verbatim>\<open>JSON.parse\<close>, or by \<^verbatim>\<open>forEach\<close> on a value that is no
  array). \<open>request env k\<close> is the outcome of the request issued after \<open>k\<close> earlier ones: a
  rejection (\<open>Inl\<close>) or a response.
\<close>

record env =
  location_origin :: string
  location_href :: string
  URI_parse :: "string \<Rightarrow> URI"
  URI_toString :: "URI \<Rightarrow> string"
  JSON_parse :: "string \<Rightarrow> error + element list"
  request :: "nat \<Rightarrow> error + response"

text \<open>
  The observable state: the clock (\<^verbatim>\<open>Date.now()\<close>), the requests issued, the listeners of
  \<^verbatim>\<open>onCallback\<close>, the events fired and their deliveries, the errors given to
  \<^verbatim>\<open>logService.error\<close>, and the rejections that nothing handles.
\<close>

record session =
  now :: nat
  requests :: "sent_request list"
  listeners :: "nat list"
  fired :: "URI list"
  delivered :: "(nat \<times> URI) list"
  logged :: "error list"
  unhandled :: "error list"

subsection \<open>Constants\<close>

text \<open>
  The comments of the source beside the two constants: \<^verbatim>\<open>fetch every 500ms\<close> and
  \<^verbatim>\<open>...but stop after 5min\<close>.
\<close>

definition FETCH_INTERVAL :: nat where
  "FETCH_INTERVAL = 500"

definition FETCH_TIMEOUT :: nat where
  "FETCH_TIMEOUT = 1000 * 5"

definition QUERY_KEYS_ID :: string where
  "QUERY_KEYS_ID = ''vscode-id''"

definition QUERY_KEYS_PATH :: string where
  "QUERY_KEYS_PATH = ''vscode-path''"

definition QUERY_KEYS_QUERY :: string where
  "QUERY_KEYS_QUERY = ''vscode-query''"

definition QUERY_KEYS_FRAGMENT :: string where
  "QUERY_KEYS_FRAGMENT = ''vscode-fragment''"

subsection \<open>Library functions the provider calls\<close>

text \<open>
  \<^verbatim>\<open>encodeURIComponent\<close> of the language. It throws \<^verbatim>\<open>URIError\<close> on a string that holds a
  lone surrogate. Otherwise every byte is escaped as \<^verbatim>\<open>%XX\<close> (upper-case hexadecimal)
  except the letters, the digits and \<^verbatim>\<open>- _ . ! ~ * ' ( )\<close>.
\<close>

fun lone_surrogate :: "string \<Rightarrow> bool" where
  "lone_surrogate (a # b # cs) =
     ((of_char a = (0xED :: nat) \<and> (0xA0 :: nat) \<le> of_char b) \<or> lone_surrogate (b # cs))"
| "lone_surrogate cs = False"

definition unreserved :: "char \<Rightarrow> bool" where
  "unreserved c =
     (c \<in> set (''ABCDEFGHIJKLMNOPQRSTUVWXYZabcdefghijklmnopqrstuvwxyz0123456789-_.!~*()'' @ [CHR 0x27]))"

definition hexDigit :: "nat \<Rightarrow> char" where
  "hexDigit n = ''0123456789ABCDEF'' ! (n mod 16)"

fun percent_escape :: "string \<Rightarrow> string" where
  "percent_escape [] = []"
| "percent_escape (c # cs) =
     (if unreserved c then [c]
      else [CHR ''%'', hexDigit (of_char c div 16), hexDigit (of_char c mod 16)])
     @ percent_escape cs"

definition encodeURIComponent :: "string \<Rightarrow> error + string" where
  "encodeURIComponent s = (if lone_surrogate s then Inl URIError else Inr (percent_escape s))"

text \<open>
  \<^verbatim>\<open>decodeURIComponent\<close> of the language, on bytes: \<^verbatim>\<open>%XX\<close> becomes the byte, a \<^verbatim>\<open>%\<close> that
  two hexadecimal digits do not follow is a \<^verbatim>\<open>URIError\<close> (\<open>None\<close>). The language also throws
  when the decoded bytes are not UTF-8; that check is left out here, where only escaped
  strings are decoded.
\<close>

definition hexValue :: "char \<Rightarrow> nat option" where
  "hexValue c =
     (let n = (of_char c :: nat) in
      if 48 \<le> n \<and> n \<le> 57 then Some (n - 48)
      else if 65 \<le> n \<and> n \<le> 70 then Some (n - 55)
      else if 97 \<le> n \<and> n \<le> 102 then Some (n - 87)
      else None)"

fun decodeURIComponent :: "string \<Rightarrow> string option" where
  "decodeURIComponent [] = Some []"
| "decodeURIComponent (c # cs) =
     (if c = CHR ''%'' then
        (case cs of
           h # l # rest \<Rightarrow>
             (case (hexValue h, hexValue l) of
                (Some a, Some b) \<Rightarrow>
                  map_option (Cons (char_of (16 * a + b))) (decodeURIComponent rest)
              | _ \<Rightarrow> None)
         | _ \<Rightarrow> None)
      else map_option (Cons c) (decodeURIComponent cs))"

text \<open>
  \<^verbatim>\<open>Map.prototype.set\<close>: a \<^verbatim>\<open>Map\<close> keeps its keys in the order of their first insertion.
\<close>

fun Map_set :: "('k \<times> 'v) list \<Rightarrow> 'k \<Rightarrow> 'v \<Rightarrow> ('k \<times> 'v) list" where
  "Map_set [] k v = [(k, v)]"
| "Map_set (p # ps) k v = (if fst p = k then (k, v) # ps else p # Map_set ps k v)"

text \<open>
  Modelled from the spec: \<^verbatim>\<open>URI.with\<close> of \<^verbatim>\<open>vs/base/common/uri\<close> is not among the sources.
  The produced URI is the current location with its path and its query replaced.
\<close>

definition URI_with :: "URI \<Rightarrow> string \<Rightarrow> string \<Rightarrow> URI" where
  "URI_with u path' query' = u\<lparr>path := path', query := query'\<rparr>"

text \<open>
  Modelled from the spec: \<^verbatim>\<open>URI.revive\<close> of \<^verbatim>\<open>vs/base/common/uri\<close> is not among the sources.
  It reconstructs a URI from a record of components (scheme, authority, path, query,
  fragment); a component that the record lacks is empty. On which other values it throws
  is left to the platform (\<open>Unrevivable\<close>).
\<close>

definition orEmpty :: "string option \<Rightarrow> string" where
  "orEmpty x = (case x of None \<Rightarrow> [] | Some v \<Rightarrow> v)"

definition URI_revive :: "UriComponents \<Rightarrow> URI" where
  "URI_revive c =
     \<lparr>scheme = orEmpty (c_scheme c), authority = orEmpty (c_authority c),
      path = orEmpty (c_path c), query = orEmpty (c_query c),
      fragment = orEmpty (c_fragment c)\<rparr>"

text \<open>
  Modelled from the spec: the \<^verbatim>\<open>Emitter\<close> of \<^verbatim>\<open>vs/base/common/event\<close> is not among the
  sources. Firing an event delivers it synchronously to the current listeners, in their
  order.
\<close>

definition fire :: "session \<Rightarrow> URI \<Rightarrow> session" where
  "fire s uri =
     s\<lparr>fired := fired s @ [uri],
       delivered := delivered s @ map (\<lambda>l. (l, uri)) (listeners s)\<rparr>"

text \<open>
  The body of the \<^verbatim>\<open>try\<close> block after \<^verbatim>\<open>JSON.parse\<close>, the same in both revisions:
  \<^verbatim>\<open>uris.forEach(uri => this._onCallback.fire(URI.revive(uri)))\<close>. The elements are visited
  in order; each is revived and the URI fired before the next is looked at. When
  \<^verbatim>\<open>URI.revive\<close> throws, the elements before have been fired and the later ones are not
  visited: the result is the state reached and the error thrown, if any.
\<close>

fun forEach :: "session \<Rightarrow> element list \<Rightarrow> session \<times> error option" where
  "forEach s [] = (s, None)"
| "forEach s (Components uri # uris) = forEach (fire s (URI_revive uri)) uris"
| "forEach s (Unrevivable e # uris) = (s, Some e)"

text \<open>The \<^verbatim>\<open>catch\<close> clause, the same in both revisions: \<^verbatim>\<open>this.logService.error(error)\<close>.\<close>

fun catch_log :: "session \<times> error option \<Rightarrow> session" where
  "catch_log (s, None) = s"
| "catch_log (s, Some e) = s\<lparr>logged := logged s @ [e]\<rparr>"

subsection \<open>The revision with a timeout\<close>

definition doCreateUri :: "env \<Rightarrow> string \<Rightarrow> string \<Rightarrow> (string \<times> string) list option \<Rightarrow> URI" where
  "doCreateUri env identifier path' payload =
     (let query0 = QUERY_KEYS_ID @ ''='' @ identifier;
          query1 = (case payload of
                      Some entries \<Rightarrow>
                        foldl (\<lambda>q (key, value). q @ ''&'' @ key @ ''='' @ value) query0 entries
                    | None \<Rightarrow> query0)
      in URI_with (URI_parse env (location_href env)) path' query1)"

function periodicFetchCallback :: "env \<Rightarrow> string \<Rightarrow> nat \<Rightarrow> session \<Rightarrow> session" where
  "periodicFetchCallback env identifier startTime s =
     (let s1 = s\<lparr>requests := requests s @
                  [\<lparr>url = URI_toString env (doCreateUri env identifier ''fetch-callback'' None),
                    token = CancellationToken_None, sent_at = now s\<rparr>]\<rparr>
      in case request env (length (requests s)) of
           Inl e \<Rightarrow> s1\<lparr>unhandled := unhandled s1 @ [e]\<rparr>
         | Inr result \<Rightarrow>
             (let s2 = s1\<lparr>now := now s1 + took result\<rparr>
              in if length (content result) > 0 then
                   (case JSON_parse env (content result) of
                      Inr uris \<Rightarrow> catch_log (forEach s2 uris)
                    | Inl e \<Rightarrow> catch_log (s2, Some e))
                 else if now s2 - startTime < FETCH_TIMEOUT then
                   periodicFetchCallback env identifier startTime
                     (s2\<lparr>now := now s2 + FETCH_INTERVAL\<rparr>)
                 else s2))"
  by pat_completeness auto
termination
  by (relation "measure (\<lambda>(env, identifier, startTime, s).
                  startTime + FETCH_TIMEOUT + FETCH_INTERVAL - now s)")
     (auto simp: FETCH_INTERVAL_def)

declare periodicFetchCallback.simps [simp del]

definition create :: "env \<Rightarrow> string \<Rightarrow> IURLCreateOptions option \<Rightarrow> session \<Rightarrow> URI \<times> session" where
  "create env identifier options s =
     (let (path, query, fragment) =
            (case options of
               Some opts \<Rightarrow> (o_path opts, o_query opts, o_fragment opts)
             | None \<Rightarrow> (None, None, None));
          payload0 = [];
          payload1 = (case path of
                        Some v \<Rightarrow> if v \<noteq> [] then Map_set payload0 QUERY_KEYS_PATH v else payload0
                      | None \<Rightarrow> payload0);
          payload2 = (case query of
                        Some v \<Rightarrow> if v \<noteq> [] then Map_set payload1 QUERY_KEYS_QUERY v else payload1
                      | None \<Rightarrow> payload1);
          payload3 = (case fragment of
                        Some v \<Rightarrow> if v \<noteq> [] then Map_set payload2 QUERY_KEYS_FRAGMENT v else payload2
                      | None \<Rightarrow> payload2);
          s' = periodicFetchCallback env identifier (now s) s
      in (doCreateUri env identifier ''callback'' (Some payload3), s'))"

subsection \<open>The revision without a timeout\<close>

text \<open>
  The statement \<^verbatim>\<open>baseAppUriRaw += `&key=${encodeURIComponent(value)}`\<close>. The text so far is
  \<open>Inr\<close>; once \<^verbatim>\<open>encodeURIComponent\<close> has thrown (\<open>Inl\<close>), no later statement of \<^verbatim>\<open>create\<close>
  runs.
\<close>

definition plus_encoded :: "error + string \<Rightarrow> string \<Rightarrow> string \<Rightarrow> error + string" where
  "plus_encoded raw key value =
     (case raw of
        Inl e \<Rightarrow> Inl e
      | Inr so_far \<Rightarrow>
          (case encodeURIComponent value of
             Inl e \<Rightarrow> Inl e
           | Inr escaped \<Rightarrow> Inr (so_far @ key @ escaped)))"

text \<open>The value of \<^verbatim>\<open>baseAppUriRaw\<close> when \<^verbatim>\<open>create\<close> reaches the call of \<^verbatim>\<open>doFetch\<close>.\<close>

definition baseAppUriRaw :: "env \<Rightarrow> string \<Rightarrow> IURLCreateOptions option \<Rightarrow> error + string" where
  "baseAppUriRaw env identifier options =
     (let (path, query, fragment) =
            (case options of
               Some opts \<Rightarrow> (o_path opts, o_query opts, o_fragment opts)
             | None \<Rightarrow> (None, None, None));
          raw0 = Inr (location_origin env @ ''/callback?vscode-id='' @ identifier);
          raw1 = (case path of
                    Some v \<Rightarrow> if v \<noteq> [] then plus_encoded raw0 ''&vscode-path='' v else raw0
                  | None \<Rightarrow> raw0);
          raw2 = (case query of
                    Some v \<Rightarrow> if v \<noteq> [] then plus_encoded raw1 ''&vscode-query='' v else raw1
                  | None \<Rightarrow> raw1);
          raw3 = (case fragment of
                    Some v \<Rightarrow> if v \<noteq> [] then plus_encoded raw2 ''&vscode-fragment='' v else raw2
                  | None \<Rightarrow> raw2)
      in raw3)"

text \<open>
  \<^verbatim>\<open>doFetch\<close> reschedules itself for as long as the body is empty, so it need not return.
  The first argument bounds the number of requests the chain is followed for: the result
  is \<open>Settled\<close> with the final state when the chain has ended within that many requests,
  and \<open>Pending\<close> with the state reached when it is still polling.
\<close>

datatype outcome = Pending session | Settled session

fun doFetch :: "nat \<Rightarrow> env \<Rightarrow> string \<Rightarrow> session \<Rightarrow> outcome" where
  "doFetch 0 env identifier s = Pending s"
| "doFetch (Suc fuel) env identifier s =
     (let s1 = s\<lparr>requests := requests s @
                  [\<lparr>url = location_origin env @ ''/fetch-callback?vscode-id='' @ identifier,
                    token = CancellationToken_None, sent_at = now s\<rparr>]\<rparr>
      in case request env (length (requests s)) of
           Inl e \<Rightarrow> Settled (s1\<lparr>unhandled := unhandled s1 @ [e]\<rparr>)
         | Inr result \<Rightarrow>
             (let s2 = s1\<lparr>now := now s1 + took result\<rparr>
              in if length (content result) = 0 then
                   doFetch fuel env identifier (s2\<lparr>now := now s2 + 500\<rparr>)
                 else
                   (case JSON_parse env (content result) of
                      Inr uris \<Rightarrow> Settled (catch_log (forEach s2 uris))
                    | Inl e \<Rightarrow> Settled (catch_log (s2, Some e)))))"

text \<open>
  \<^verbatim>\<open>create\<close> of this revision. When \<^verbatim>\<open>encodeURIComponent\<close> throws, the call ends there: no
  request has been issued and no URI is returned (\<open>Inl\<close>).
\<close>

definition create_doFetch ::
  "nat \<Rightarrow> env \<Rightarrow> string \<Rightarrow> IURLCreateOptions option \<Rightarrow> session \<Rightarrow> error + URI \<times> outcome" where
  "create_doFetch fuel env identifier options s =
     (case baseAppUriRaw env identifier options of
        Inl e \<Rightarrow> Inl e
      | Inr raw \<Rightarrow>
          (let s' = doFetch fuel env identifier s
           in Inr (URI_parse env raw, s')))"

subsection \<open>Notions used to state the properties\<close>

text \<open>
  A query string read the usual way: the pairs are separated by \<^verbatim>\<open>&\<close>, and in each pair the
  key ends at the first \<^verbatim>\<open>=\<close>. The query of a URL in text form starts after the first \<^verbatim>\<open>?\<close>
  and ends before the first \<^verbatim>\<open>#\<close>.
\<close>

fun split_on :: "char \<Rightarrow> string \<Rightarrow> string list" where
  "split_on d [] = [[]]"
| "split_on d (c # cs) =
     (if c = d then [] # split_on d cs
      else (case split_on d cs of x # xs \<Rightarrow> (c # x) # xs | [] \<Rightarrow> [[c]]))"

definition key_value :: "string \<Rightarrow> string \<times> string" where
  "key_value p =
     (takeWhile (\<lambda>c. c \<noteq> CHR ''='') p, drop 1 (dropWhile (\<lambda>c. c \<noteq> CHR ''='') p))"

definition parse_query :: "string \<Rightarrow> (string \<times> string) list" where
  "parse_query q = map key_value (split_on CHR ''&'' q)"

definition url_query :: "string \<Rightarrow> string" where
  "url_query u = takeWhile (\<lambda>c. c \<noteq> CHR ''#'') (drop 1 (dropWhile (\<lambda>c. c \<noteq> CHR ''?'') u))"

text \<open>The optional fields that are given and not empty, under their keys, in the order
  path, query, fragment.\<close>

definition given :: "string \<Rightarrow> string option \<Rightarrow> (string \<times> string) list" where
  "given key x = (case x of Some v \<Rightarrow> if v \<noteq> [] then [(key, v)] else [] | None \<Rightarrow> [])"

definition provided :: "IURLCreateOptions option \<Rightarrow> (string \<times> string) list" where
  "provided options =
     (case options of
        None \<Rightarrow> []
      | Some opts \<Rightarrow>
          given ''vscode-path'' (o_path opts) @ given ''vscode-query'' (o_query opts)
          @ given ''vscode-fragment'' (o_fragment opts))"

text \<open>
  The query text \<^verbatim>\<open>vscode-id=<identifier>\<close> followed by \<^verbatim>\<open>&<key>=<value>\<close> for each entry, and
  the entries with their values percent-escaped.
\<close>

definition query_text :: "string \<Rightarrow> (string \<times> string) list \<Rightarrow> string" where
  "query_text identifier entries =
     ''vscode-id='' @ identifier
     @ concat (map (\<lambda>(key, value). ''&'' @ key @ ''='' @ value) entries)"

definition escaped :: "(string \<times> string) list \<Rightarrow> (string \<times> string) list" where
  "escaped entries = map (\<lambda>(key, value). (key, percent_escape value)) entries"

text \<open>What a call of \<open>create_doFetch\<close> returned, and the chain it started, if it did not throw.\<close>

definition returned :: "error + URI \<times> outcome \<Rightarrow> URI option" where
  "returned x = (case x of Inl e \<Rightarrow> None | Inr (uri, out) \<Rightarrow> Some uri)"

definition started :: "error + URI \<times> outcome \<Rightarrow> outcome option" where
  "started x = (case x of Inl e \<Rightarrow> None | Inr (uri, out) \<Rightarrow> Some out)"

text \<open>The \<^verbatim>\<open>try\<close> statement of both pollers, run in the state \<open>s\<close> on a body.\<close>

definition try_catch :: "env \<Rightarrow> session \<Rightarrow> string \<Rightarrow> session" where
  "try_catch env s body =
     (case JSON_parse env body of
        Inr uris \<Rightarrow> catch_log (forEach s uris)
      | Inl e \<Rightarrow> catch_log (s, Some e))"

text \<open>
  The times of a run of empty answers. The request that follows \<open>m\<close> earlier ones is issued
  at time \<open>t\<close>; each later request is issued \<open>interval\<close> after the answer to the one
  before it was held.
\<close>

definition took_of :: "error + response \<Rightarrow> nat" where
  "took_of x = (case x of Inl e \<Rightarrow> 0 | Inr r \<Rightarrow> took r)"

primrec sent_time :: "nat \<Rightarrow> env \<Rightarrow> nat \<Rightarrow> nat \<Rightarrow> nat \<Rightarrow> nat" where
  "sent_time interval env m t 0 = t"
| "sent_time interval env m t (Suc k) =
     sent_time interval env m t k + took_of (request env (m + k)) + interval"

definition observed_at :: "nat \<Rightarrow> env \<Rightarrow> nat \<Rightarrow> nat \<Rightarrow> nat \<Rightarrow> nat" where
  "observed_at interval env m t k =
     sent_time interval env m t k + took_of (request env (m + k))"

definition attempts :: "string \<Rightarrow> nat \<Rightarrow> env \<Rightarrow> nat \<Rightarrow> nat \<Rightarrow> nat \<Rightarrow> sent_request list" where
  "attempts u interval env m t n =
     map (\<lambda>k. \<lparr>url = u, token = CancellationToken_None, sent_at = sent_time interval env m t k\<rparr>)
       [0..<n]"

text \<open>The state after \<open>n\<close> rounds of request, empty answer and timer.\<close>

definition idle :: "string \<Rightarrow> nat \<Rightarrow> env \<Rightarrow> nat \<Rightarrow> session \<Rightarrow> session" where
  "idle u interval env n s =
     s\<lparr>requests := requests s @ attempts u interval env (length (requests s)) (now s) n,
       now := sent_time interval env (length (requests s)) (now s) n\<rparr>"

text \<open>The state that an outcome carries.\<close>

definition state_of :: "outcome \<Rightarrow> session" where
  "state_of out = (case out of Pending s \<Rightarrow> s | Settled s \<Rightarrow> s)"

abbreviation fetch_url :: "env \<Rightarrow> string \<Rightarrow> string" where
  "fetch_url env identifier \<equiv>
     URI_toString env (doCreateUri env identifier ''fetch-callback'' None)"

definition fetch_url_raw :: "env \<Rightarrow> string \<Rightarrow> string" where
  "fetch_url_raw env identifier =
     location_origin env @ ''/fetch-callback?vscode-id='' @ identifier"

subsection \<open>A mocked platform\<close>

definition mock_location :: URI where
  "mock_location =
     \<lparr>scheme = ''https'', authority = ''vscode.example'', path = ''/'', query = [],
      fragment = []\<rparr>"

definition mock_toString :: "URI \<Rightarrow> string" where
  "mock_toString u =
     scheme u @ ''://'' @ authority u
     @ (if path u \<noteq> [] \<and> hd (path u) = CHR ''/'' then path u else CHR ''/'' # path u)
     @ (if query u = [] then [] else CHR ''?'' # query u)
     @ (if fragment u = [] then [] else CHR ''#'' # fragment u)"

definition done_body :: string where
  \<open>done_body = ''[{"scheme":"https","authority":"example.com","path":"/done"}]''\<close>

definition done_components :: UriComponents where
  "done_components =
     \<lparr>c_scheme = Some ''https'', c_authority = Some ''example.com'', c_path = Some ''/done'',
      c_query = None, c_fragment = None\<rparr>"

text \<open>An array of two records, and an array of a record and a number.\<close>

definition two_body :: string where
  \<open>two_body = ''[{"scheme":"https","authority":"example.com","path":"/a"},{"scheme":"https","authority":"example.com","path":"/b"}]''\<close>

definition two_components :: "UriComponents list" where
  "two_components =
     [\<lparr>c_scheme = Some ''https'', c_authority = Some ''example.com'', c_path = Some ''/a'',
       c_query = None, c_fragment = None\<rparr>,
      \<lparr>c_scheme = Some ''https'', c_authority = Some ''example.com'', c_path = Some ''/b'',
       c_query = None, c_fragment = None\<rparr>]"

definition mixed_body :: string where
  \<open>mixed_body = ''[{},-1]''\<close>

definition no_components :: UriComponents where
  "no_components =
     \<lparr>c_scheme = None, c_authority = None, c_path = None, c_query = None, c_fragment = None\<rparr>"

text \<open>
  A stand-in for \<^verbatim>\<open>JSON.parse\<close> that knows these three bodies; the number \<^verbatim>\<open>-1\<close> is a value
  that \<^verbatim>\<open>URI.revive\<close> throws on.
\<close>

definition mock_JSON_parse :: "string \<Rightarrow> error + element list" where
  "mock_JSON_parse body =
     (if body = done_body then Inr [Components done_components]
      else if body = two_body then Inr (map Components two_components)
      else if body = mixed_body then Inr [Components no_components, Unrevivable ReviveError]
      else Inl SyntaxError)"

text \<open>A transport that answers at once: the scripted bodies first, empty bodies after them.\<close>

definition script :: "string list \<Rightarrow> nat \<Rightarrow> error + response" where
  "script bodies k =
     Inr \<lparr>content = (if k < length bodies then bodies ! k else []), took = 0\<rparr>"

text \<open>A transport that rejects every request.\<close>

definition unreachable :: "nat \<Rightarrow> error + response" where
  "unreachable k = Inl RequestFailed"

text \<open>
  A stand-in for \<^verbatim>\<open>URI.parse\<close> that cuts a text \<^verbatim>\<open>scheme://authority/path?query#fragment\<close> into
  its components and leaves them as they are written.
\<close>

definition mock_parse :: "string \<Rightarrow> URI" where
  "mock_parse raw =
     (let rest = drop 3 (dropWhile (\<lambda>c. c \<noteq> CHR '':'') raw)
      in \<lparr>scheme = takeWhile (\<lambda>c. c \<noteq> CHR '':'') raw,
          authority = takeWhile (\<lambda>c. c \<notin> set ''/?#'') rest,
          path = takeWhile (\<lambda>c. c \<notin> set ''?#'') (dropWhile (\<lambda>c. c \<notin> set ''/?#'') rest),
          query = url_query raw,
          fragment = drop 1 (dropWhile (\<lambda>c. c \<noteq> CHR ''#'') raw)\<rparr>)"

text \<open>A stand-in for \<^verbatim>\<open>URI.parse\<close> that also percent-decodes the query, where it can.\<close>

definition decoding_parse :: "string \<Rightarrow> URI" where
  "decoding_parse raw =
     (mock_parse raw)
       \<lparr>query := (case decodeURIComponent (url_query raw) of
                    Some q \<Rightarrow> q
                  | None \<Rightarrow> url_query raw)\<rparr>"

text \<open>
  A stand-in for \<^verbatim>\<open>URI.toString(true)\<close> that writes \<^verbatim>\<open>#\<close> and \<^verbatim>\<open>?\<close> inside the query as
  \<^verbatim>\<open>%23\<close> and \<^verbatim>\<open>%3F\<close>.
\<close>

definition escaping_toString :: "URI \<Rightarrow> string" where
  "escaping_toString u =
     mock_toString
       (u\<lparr>query := concat (map (\<lambda>c. if c = CHR ''#'' then ''%23''
                                    else if c = CHR ''?'' then ''%3F'' else [c]) (query u))\<rparr>)"

definition mock_env :: "(nat \<Rightarrow> error + response) \<Rightarrow> env" where
  "mock_env transport =
     \<lparr>location_origin = ''https://vscode.example'',
      location_href = ''https://vscode.example/'',
      URI_parse = mock_parse,
      URI_toString = mock_toString,
      JSON_parse = mock_JSON_parse,
      request = transport\<rparr>"

definition fresh :: session where
  "fresh =
     \<lparr>now = 0, requests = [], listeners = [0], fired = [], delivered = [], logged = [],
      unhandled = []\<rparr>"

text \<open>The same state with a second listener.\<close>

definition two_listeners :: session where
  "two_listeners = fresh\<lparr>listeners := [0, 1]\<rparr>"

section \<open>Properties\<close>

subsection \<open>One round of a poller, and runs of empty answers\<close>

declare doFetch.simps [simp del]

lemma pFC_rejected:
  "request env (length (requests s)) = Inl e \<Longrightarrow>
   periodicFetchCallback env identifier startTime s =
     s\<lparr>requests := requests s @ [\<lparr>url = fetch_url env identifier, token = CancellationToken_None, sent_at = now s\<rparr>],
       unhandled := unhandled s @ [e]\<rparr>"
  by (subst periodicFetchCallback.simps) simp

lemma pFC_answered:
  "request env (length (requests s)) = Inr r \<Longrightarrow> content r \<noteq> [] \<Longrightarrow>
   periodicFetchCallback env identifier startTime s =
     try_catch env
       (s\<lparr>requests := requests s @ [\<lparr>url = fetch_url env identifier, token = CancellationToken_None, sent_at = now s\<rparr>],
          now := now s + took r\<rparr>) (content r)"
  by (subst periodicFetchCallback.simps) (simp add: try_catch_def Let_def split: sum.splits)

lemma pFC_retry:
  "request env (length (requests s)) = Inr r \<Longrightarrow> content r = [] \<Longrightarrow>
   now s + took r - startTime < FETCH_TIMEOUT \<Longrightarrow>
   periodicFetchCallback env identifier startTime s =
     periodicFetchCallback env identifier startTime
       (s\<lparr>requests := requests s @ [\<lparr>url = fetch_url env identifier, token = CancellationToken_None, sent_at = now s\<rparr>],
          now := now s + took r + FETCH_INTERVAL\<rparr>)"
  by (subst periodicFetchCallback.simps) simp

lemma pFC_timeout:
  "request env (length (requests s)) = Inr r \<Longrightarrow> content r = [] \<Longrightarrow>
   \<not> now s + took r - startTime < FETCH_TIMEOUT \<Longrightarrow>
   periodicFetchCallback env identifier startTime s =
     s\<lparr>requests := requests s @ [\<lparr>url = fetch_url env identifier, token = CancellationToken_None, sent_at = now s\<rparr>],
       now := now s + took r\<rparr>"
  by (subst periodicFetchCallback.simps) simp

lemma fired_forEach:
  "fired (foldl (\<lambda>s' uri. fire s' (f uri)) s uris) = fired s @ map f uris"
  by (induction uris arbitrary: s) (simp_all add: fire_def)

lemma listeners_forEach:
  "listeners (foldl (\<lambda>s' uri. fire s' (f uri)) s uris) = listeners s"
  by (induction uris arbitrary: s) (simp_all add: fire_def)

lemma delivered_forEach:
  "delivered (foldl (\<lambda>s' uri. fire s' (f uri)) s uris) =
     delivered s @ concat (map (\<lambda>uri. map (\<lambda>l. (l, f uri)) (listeners s)) uris)"
  by (induction uris arbitrary: s) (simp_all add: fire_def)

lemma rest_forEach:
  "now (foldl (\<lambda>s' uri. fire s' (f uri)) s uris) = now s"
  "requests (foldl (\<lambda>s' uri. fire s' (f uri)) s uris) = requests s"
  "logged (foldl (\<lambda>s' uri. fire s' (f uri)) s uris) = logged s"
  "unhandled (foldl (\<lambda>s' uri. fire s' (f uri)) s uris) = unhandled s"
  by (induction uris arbitrary: s) (simp_all add: fire_def)

text \<open>The \<^verbatim>\<open>try\<close> statement: what it fires and logs, and what it leaves as it is.\<close>

lemma forEach_records:
  "forEach s (map Components cs) = (foldl (\<lambda>s' c. fire s' (URI_revive c)) s cs, None)"
  by (induction cs arbitrary: s) simp_all

lemma forEach_until:
  "forEach s (map Components cs @ Unrevivable e # rest) =
     (foldl (\<lambda>s' c. fire s' (URI_revive c)) s cs, Some e)"
  by (induction cs arbitrary: s) simp_all

lemma elements_cases:
  "(\<exists>cs. xs = map Components cs) \<or> (\<exists>cs e rest. xs = map Components cs @ Unrevivable e # rest)"
proof (induction xs)
  case Nil
  then show ?case by simp
next
  case (Cons x xs)
  show ?case
  proof (cases x)
    case (Components c)
    from Cons show ?thesis
    proof
      assume "\<exists>cs. xs = map Components cs"
      then obtain cs where "xs = map Components cs" ..
      then have "x # xs = map Components (c # cs)"
        using Components by simp
      then show ?thesis by (intro disjI1 exI [of _ "c # cs"])
    next
      assume "\<exists>cs e rest. xs = map Components cs @ Unrevivable e # rest"
      then obtain cs e rest where "xs = map Components cs @ Unrevivable e # rest" by blast
      then have "x # xs = map Components (c # cs) @ Unrevivable e # rest"
        using Components by simp
      then show ?thesis by (intro disjI2 exI [of _ "c # cs"] exI [of _ e] exI [of _ rest])
    qed
  next
    case (Unrevivable e)
    then have "x # xs = map Components [] @ Unrevivable e # xs"
      by simp
    then show ?thesis by (intro disjI2 exI [of _ "[]"] exI [of _ e] exI [of _ xs])
  qed
qed

lemma try_catch_unparsed:
  "JSON_parse env body = Inl e \<Longrightarrow> try_catch env s body = s\<lparr>logged := logged s @ [e]\<rparr>"
  by (simp add: try_catch_def)

lemma try_catch_parsed:
  "JSON_parse env body = Inr (map Components cs) \<Longrightarrow>
   try_catch env s body = foldl (\<lambda>s' c. fire s' (URI_revive c)) s cs"
  by (simp add: try_catch_def forEach_records)

lemma try_catch_until:
  "JSON_parse env body = Inr (map Components cs @ Unrevivable e # rest) \<Longrightarrow>
   try_catch env s body =
     (foldl (\<lambda>s' c. fire s' (URI_revive c)) s cs)\<lparr>logged := logged s @ [e]\<rparr>"
  by (simp add: try_catch_def forEach_until rest_forEach)

lemma try_catch_fields:
  "now (try_catch env s body) = now s"
  "requests (try_catch env s body) = requests s"
  "listeners (try_catch env s body) = listeners s"
  "unhandled (try_catch env s body) = unhandled s"
proof -
  have "now (try_catch env s body) = now s \<and> requests (try_catch env s body) = requests s \<and>
        listeners (try_catch env s body) = listeners s \<and>
        unhandled (try_catch env s body) = unhandled s"
  proof (cases "JSON_parse env body")
    case (Inl e)
    then show ?thesis by (simp add: try_catch_unparsed)
  next
    case (Inr xs)
    from elements_cases [of xs] show ?thesis
    proof (elim disjE exE)
      fix cs assume "xs = map Components cs"
      with Inr show ?thesis
        by (simp add: try_catch_parsed rest_forEach listeners_forEach)
    next
      fix cs e rest assume "xs = map Components cs @ Unrevivable e # rest"
      with Inr show ?thesis
        by (simp add: try_catch_until rest_forEach listeners_forEach)
    qed
  qed
  then show "now (try_catch env s body) = now s" "requests (try_catch env s body) = requests s"
    "listeners (try_catch env s body) = listeners s"
    "unhandled (try_catch env s body) = unhandled s"
    by simp_all
qed

lemma idle_0: "idle u iv env 0 s = s"
  by (simp add: idle_def attempts_def)

lemma idle_fields:
  "now (idle u iv env n s) = sent_time iv env (length (requests s)) (now s) n"
  "requests (idle u iv env n s) = requests s @ attempts u iv env (length (requests s)) (now s) n"
  "listeners (idle u iv env n s) = listeners s"
  "fired (idle u iv env n s) = fired s"
  "delivered (idle u iv env n s) = delivered s"
  "logged (idle u iv env n s) = logged s"
  "unhandled (idle u iv env n s) = unhandled s"
  by (simp_all add: idle_def)

lemma length_attempts: "length (attempts u iv env m t n) = n"
  by (simp add: attempts_def)

lemma attempts_Suc:
  "attempts u iv env m t (Suc n) =
     attempts u iv env m t n @ [\<lparr>url = u, token = CancellationToken_None, sent_at = sent_time iv env m t n\<rparr>]"
  by (simp add: attempts_def)

lemma idle_Suc:
  "idle u iv env (Suc n) s =
     (idle u iv env n s)\<lparr>requests := requests (idle u iv env n s) @
         [\<lparr>url = u, token = CancellationToken_None, sent_at = now (idle u iv env n s)\<rparr>],
       now := now (idle u iv env n s) + took_of (request env (length (requests (idle u iv env n s)))) + iv\<rparr>"
  by (simp add: idle_def attempts_Suc length_attempts)

lemma pFC_idle_step:
  assumes "request env (length (requests s) + n) = Inr r" "content r = []"
    "observed_at FETCH_INTERVAL env (length (requests s)) (now s) n - startTime < FETCH_TIMEOUT"
  shows "periodicFetchCallback env identifier startTime (idle (fetch_url env identifier) FETCH_INTERVAL env n s) =
         periodicFetchCallback env identifier startTime (idle (fetch_url env identifier) FETCH_INTERVAL env (Suc n) s)"
proof -
  let ?s = "idle (fetch_url env identifier) FETCH_INTERVAL env n s"
  have len: "length (requests ?s) = length (requests s) + n"
    by (simp add: idle_fields length_attempts)
  have r: "request env (length (requests ?s)) = Inr r" using assms(1) len by simp
  have t: "now ?s + took r - startTime < FETCH_TIMEOUT"
    using assms(1,3) by (simp add: idle_fields observed_at_def took_of_def)
  show ?thesis
    by (subst pFC_retry [OF r assms(2) t], subst idle_Suc) (simp add: r took_of_def)
qed

lemma pFC_idle_run:
  "(\<forall>k<N. \<exists>r. request env (length (requests s) + k) = Inr r \<and> content r = [] \<and>
       observed_at FETCH_INTERVAL env (length (requests s)) (now s) k - startTime < FETCH_TIMEOUT) \<Longrightarrow>
   periodicFetchCallback env identifier startTime s =
     periodicFetchCallback env identifier startTime (idle (fetch_url env identifier) FETCH_INTERVAL env N s)"
proof (induction N)
  case 0
  then show ?case by (simp add: idle_0)
next
  case (Suc N)
  then obtain r where "request env (length (requests s) + N) = Inr r" "content r = []"
    "observed_at FETCH_INTERVAL env (length (requests s)) (now s) N - startTime < FETCH_TIMEOUT"
    by blast
  from pFC_idle_step [OF this] Suc show ?case by simp
qed


lemma sent_time_ge: "t + k * iv \<le> sent_time iv env m t k"
  by (induction k) simp_all

lemma pFC_run_timeout:
  assumes "\<forall>k<N. \<exists>r. request env (length (requests s) + k) = Inr r \<and> content r = [] \<and>
       observed_at FETCH_INTERVAL env (length (requests s)) (now s) k - startTime < FETCH_TIMEOUT"
    and "request env (length (requests s) + N) = Inr r" and "content r = []"
    and "\<not> observed_at FETCH_INTERVAL env (length (requests s)) (now s) N - startTime < FETCH_TIMEOUT"
  shows "periodicFetchCallback env identifier startTime s =
     s\<lparr>requests := requests s @
          attempts (fetch_url env identifier) FETCH_INTERVAL env (length (requests s)) (now s) (Suc N),
       now := observed_at FETCH_INTERVAL env (length (requests s)) (now s) N\<rparr>"
proof -
  let ?s = "idle (fetch_url env identifier) FETCH_INTERVAL env N s"
  have len: "length (requests ?s) = length (requests s) + N"
    by (simp add: idle_fields length_attempts)
  have r: "request env (length (requests ?s)) = Inr r" using assms(2) len by simp
  have t: "\<not> now ?s + took r - startTime < FETCH_TIMEOUT"
    using assms(2,4) by (simp add: idle_fields observed_at_def took_of_def)
  show ?thesis
    unfolding pFC_idle_run [OF assms(1)] pFC_timeout [OF r assms(3) t]
    using assms(2) by (simp add: idle_def attempts_Suc observed_at_def took_of_def)
qed

lemma pFC_run_answered:
  assumes "\<forall>k<N. \<exists>r. request env (length (requests s) + k) = Inr r \<and> content r = [] \<and>
       observed_at FETCH_INTERVAL env (length (requests s)) (now s) k - startTime < FETCH_TIMEOUT"
    and "request env (length (requests s) + N) = Inr r" and "content r \<noteq> []"
  shows "periodicFetchCallback env identifier startTime s =
     try_catch env
      (s\<lparr>requests := requests s @
          attempts (fetch_url env identifier) FETCH_INTERVAL env (length (requests s)) (now s) (Suc N),
       now := observed_at FETCH_INTERVAL env (length (requests s)) (now s) N\<rparr>) (content r)"
proof -
  let ?s = "idle (fetch_url env identifier) FETCH_INTERVAL env N s"
  have len: "length (requests ?s) = length (requests s) + N"
    by (simp add: idle_fields length_attempts)
  have r: "request env (length (requests ?s)) = Inr r" using assms(2) len by simp
  show ?thesis
    unfolding pFC_idle_run [OF assms(1)] pFC_answered [OF r assms(3)]
    using assms(2) by (simp add: idle_def attempts_Suc observed_at_def took_of_def)
qed

lemma pFC_run_parsed:
  assumes "\<forall>k<N. \<exists>r. request env (length (requests s) + k) = Inr r \<and> content r = [] \<and>
       observed_at FETCH_INTERVAL env (length (requests s)) (now s) k - startTime < FETCH_TIMEOUT"
    and "request env (length (requests s) + N) = Inr r" and "content r \<noteq> []"
    and "JSON_parse env (content r) = Inr (map Components uris)"
  shows "periodicFetchCallback env identifier startTime s =
     foldl (\<lambda>s' uri. fire s' (URI_revive uri))
      (s\<lparr>requests := requests s @
          attempts (fetch_url env identifier) FETCH_INTERVAL env (length (requests s)) (now s) (Suc N),
       now := observed_at FETCH_INTERVAL env (length (requests s)) (now s) N\<rparr>) uris"
  unfolding pFC_run_answered [OF assms(1,2,3)] by (rule try_catch_parsed [OF assms(4)])



lemma pFC_run_rejected:
  assumes "\<forall>k<N. \<exists>r. request env (length (requests s) + k) = Inr r \<and> content r = [] \<and>
       observed_at FETCH_INTERVAL env (length (requests s)) (now s) k - startTime < FETCH_TIMEOUT"
    and "request env (length (requests s) + N) = Inl e"
  shows "periodicFetchCallback env identifier startTime s =
     s\<lparr>requests := requests s @
          attempts (fetch_url env identifier) FETCH_INTERVAL env (length (requests s)) (now s) (Suc N),
       now := observed_at FETCH_INTERVAL env (length (requests s)) (now s) N,
       unhandled := unhandled s @ [e]\<rparr>"
proof -
  let ?s = "idle (fetch_url env identifier) FETCH_INTERVAL env N s"
  have len: "length (requests ?s) = length (requests s) + N"
    by (simp add: idle_fields length_attempts)
  have r: "request env (length (requests ?s)) = Inl e" using assms(2) len by simp
  show ?thesis
    unfolding pFC_idle_run [OF assms(1)] pFC_rejected [OF r]
    using assms(2) by (simp add: idle_def attempts_Suc observed_at_def took_of_def)
qed

lemma doFetch_rejected:
  "request env (length (requests s)) = Inl e \<Longrightarrow>
   doFetch (Suc fuel) env identifier s =
     Settled (s\<lparr>requests := requests s @ [\<lparr>url = fetch_url_raw env identifier, token = CancellationToken_None, sent_at = now s\<rparr>],
       unhandled := unhandled s @ [e]\<rparr>)"
  by (simp add: doFetch.simps Let_def fetch_url_raw_def)

lemma doFetch_answered:
  "request env (length (requests s)) = Inr r \<Longrightarrow> content r \<noteq> [] \<Longrightarrow>
   doFetch (Suc fuel) env identifier s =
     Settled (try_catch env
       (s\<lparr>requests := requests s @ [\<lparr>url = fetch_url_raw env identifier, token = CancellationToken_None, sent_at = now s\<rparr>],
          now := now s + took r\<rparr>) (content r))"
  by (simp add: doFetch.simps Let_def fetch_url_raw_def try_catch_def split: sum.splits)

lemma doFetch_retry:
  "request env (length (requests s)) = Inr r \<Longrightarrow> content r = [] \<Longrightarrow>
   doFetch (Suc fuel) env identifier s =
     doFetch fuel env identifier
       (s\<lparr>requests := requests s @ [\<lparr>url = fetch_url_raw env identifier, token = CancellationToken_None, sent_at = now s\<rparr>],
          now := now s + took r + 500\<rparr>)"
  by (simp add: doFetch.simps Let_def fetch_url_raw_def)

lemma doFetch_idle_step:
  assumes "request env (length (requests s) + n) = Inr r" "content r = []"
  shows "doFetch (Suc fuel) env identifier (idle (fetch_url_raw env identifier) 500 env n s) =
         doFetch fuel env identifier (idle (fetch_url_raw env identifier) 500 env (Suc n) s)"
proof -
  let ?s = "idle (fetch_url_raw env identifier) 500 env n s"
  have len: "length (requests ?s) = length (requests s) + n"
    by (simp add: idle_fields length_attempts)
  have r: "request env (length (requests ?s)) = Inr r" using assms(1) len by simp
  show ?thesis
    by (subst doFetch_retry [OF r assms(2)], subst idle_Suc) (simp add: r took_of_def)
qed

lemma doFetch_idle_run:
  "(\<forall>k<N. \<exists>r. request env (length (requests s) + k) = Inr r \<and> content r = []) \<Longrightarrow>
   doFetch (N + fuel) env identifier s =
     doFetch fuel env identifier (idle (fetch_url_raw env identifier) 500 env N s)"
proof (induction N arbitrary: fuel)
  case 0
  then show ?case by (simp add: idle_0)
next
  case (Suc N)
  then obtain r where r: "request env (length (requests s) + N) = Inr r" "content r = []"
    by blast
  have ih: "doFetch (N + Suc fuel) env identifier s =
      doFetch (Suc fuel) env identifier (idle (fetch_url_raw env identifier) 500 env N s)"
    using Suc.prems by (intro Suc.IH) simp
  have "doFetch (Suc N + fuel) env identifier s = doFetch (N + Suc fuel) env identifier s"
    by simp
  also have "\<dots> = doFetch (Suc fuel) env identifier (idle (fetch_url_raw env identifier) 500 env N s)"
    by (rule ih)
  also have "\<dots> = doFetch fuel env identifier (idle (fetch_url_raw env identifier) 500 env (Suc N) s)"
    by (rule doFetch_idle_step [OF r])
  finally show ?case .
qed

lemma doFetch_run_answered:
  assumes "\<forall>k<N. \<exists>r. request env (length (requests s) + k) = Inr r \<and> content r = []"
    and "request env (length (requests s) + N) = Inr r" and "content r \<noteq> []"
  shows "doFetch (Suc (N + fuel)) env identifier s =
     Settled (try_catch env
      (s\<lparr>requests := requests s @
          attempts (fetch_url_raw env identifier) 500 env (length (requests s)) (now s) (Suc N),
       now := observed_at 500 env (length (requests s)) (now s) N\<rparr>) (content r))"
proof -
  let ?s = "idle (fetch_url_raw env identifier) 500 env N s"
  have len: "length (requests ?s) = length (requests s) + N"
    by (simp add: idle_fields length_attempts)
  have r: "request env (length (requests ?s)) = Inr r" using assms(2) len by simp
  have "doFetch (Suc (N + fuel)) env identifier s = doFetch (N + Suc fuel) env identifier s"
    by simp
  also have "\<dots> = doFetch (Suc fuel) env identifier ?s"
    by (rule doFetch_idle_run [OF assms(1)])
  finally show ?thesis
    unfolding doFetch_answered [OF r assms(3)]
    using assms(2) by (simp add: idle_def attempts_Suc observed_at_def took_of_def)
qed

lemma doFetch_run_parsed:
  assumes "\<forall>k<N. \<exists>r. request env (length (requests s) + k) = Inr r \<and> content r = []"
    and "request env (length (requests s) + N) = Inr r" and "content r \<noteq> []"
    and "JSON_parse env (content r) = Inr (map Components uris)"
  shows "doFetch (Suc (N + fuel)) env identifier s =
     Settled (foldl (\<lambda>s' uri. fire s' (URI_revive uri))
      (s\<lparr>requests := requests s @
          attempts (fetch_url_raw env identifier) 500 env (length (requests s)) (now s) (Suc N),
       now := observed_at 500 env (length (requests s)) (now s) N\<rparr>) uris)"
  unfolding doFetch_run_answered [OF assms(1,2,3)] by (simp add: try_catch_parsed [OF assms(4)])



lemma doFetch_run_rejected:
  assumes "\<forall>k<N. \<exists>r. request env (length (requests s) + k) = Inr r \<and> content r = []"
    and "request env (length (requests s) + N) = Inl e"
  shows "doFetch (Suc (N + fuel)) env identifier s =
     Settled (s\<lparr>requests := requests s @
          attempts (fetch_url_raw env identifier) 500 env (length (requests s)) (now s) (Suc N),
       now := observed_at 500 env (length (requests s)) (now s) N,
       unhandled := unhandled s @ [e]\<rparr>)"
proof -
  let ?s = "idle (fetch_url_raw env identifier) 500 env N s"
  have len: "length (requests ?s) = length (requests s) + N"
    by (simp add: idle_fields length_attempts)
  have r: "request env (length (requests ?s)) = Inl e" using assms(2) len by simp
  have "doFetch (Suc (N + fuel)) env identifier s = doFetch (N + Suc fuel) env identifier s"
    by simp
  also have "\<dots> = doFetch (Suc fuel) env identifier ?s"
    by (rule doFetch_idle_run [OF assms(1)])
  finally show ?thesis
    unfolding doFetch_rejected [OF r]
    using assms(2) by (simp add: idle_def attempts_Suc observed_at_def took_of_def)
qed

lemma doFetch_always_empty:
  "(\<forall>k. \<exists>r. request env k = Inr r \<and> content r = []) \<Longrightarrow>
   doFetch fuel env identifier s = Pending (idle (fetch_url_raw env identifier) 500 env fuel s)"
  using doFetch_idle_run [of fuel env s 0 "identifier"] by (simp add: doFetch.simps)

lemma snd_create:
  "snd (create env identifier options s) = periodicFetchCallback env identifier (now s) s"
  by (simp add: create_def Let_def split: prod.splits)

lemma sent_time_le_observed_at: "sent_time iv env m t k \<le> observed_at iv env m t k"
  by (simp add: observed_at_def)

lemma attempts_first:
  "attempts u iv env m t (Suc n) =
     \<lparr>url = u, token = CancellationToken_None, sent_at = t\<rparr> #
     map (\<lambda>k. \<lparr>url = u, token = CancellationToken_None, sent_at = sent_time iv env m t (Suc k)\<rparr>) [0..<n]"
  unfolding attempts_def
  by (subst upt_conv_Cons, simp, simp only: list.map sent_time.simps map_Suc_upt [symmetric] map_map comp_def)

lemma token_attempts: "q \<in> set (attempts u iv env m t n) \<Longrightarrow> token q = CancellationToken_None"
  by (auto simp: attempts_def)

text \<open>Where a session of \<open>periodicFetchCallback\<close> ends.\<close>

lemma pFC_ends:
  "\<exists>n. (\<forall>k<n. \<exists>r. request env (length (requests s) + k) = Inr r \<and> content r = [] \<and>
             observed_at FETCH_INTERVAL env (length (requests s)) (now s) k - startTime
               < FETCH_TIMEOUT) \<and>
       requests (periodicFetchCallback env identifier startTime s) =
         requests s @ attempts (fetch_url env identifier) FETCH_INTERVAL env
                        (length (requests s)) (now s) (Suc n) \<and>
       ((\<exists>e. request env (length (requests s) + n) = Inl e \<and>
             unhandled (periodicFetchCallback env identifier startTime s) = unhandled s @ [e]) \<or>
        (\<exists>r. request env (length (requests s) + n) = Inr r \<and>
             unhandled (periodicFetchCallback env identifier startTime s) = unhandled s \<and>
             (content r \<noteq> [] \<or>
              FETCH_TIMEOUT \<le> observed_at FETCH_INTERVAL env (length (requests s)) (now s) n
                                - startTime)))"
proof -
  let ?m = "length (requests s)"
  let ?obs = "observed_at FETCH_INTERVAL env ?m (now s)"
  let ?go = "\<lambda>k. \<exists>r. request env (?m + k) = Inr r \<and> content r = [] \<and>
                 ?obs k - startTime < FETCH_TIMEOUT"
  let ?K = "FETCH_TIMEOUT + startTime"
  have "now s + ?K * FETCH_INTERVAL \<le> ?obs ?K"
    using sent_time_ge [of "now s" ?K FETCH_INTERVAL env ?m]
      sent_time_le_observed_at [of FETCH_INTERVAL env ?m "now s" ?K]
    by simp
  then have "?K \<le> ?obs ?K"
    by (simp add: FETCH_INTERVAL_def)
  then have stop: "\<not> ?go ?K"
    by auto
  define n where "n = (LEAST k. \<not> ?go k)"
  have stop_n: "\<not> ?go n"
    unfolding n_def using stop by (rule LeastI)
  have "\<not> \<not> ?go k" if "k < n" for k
    using that unfolding n_def by (rule not_less_Least)
  then have go: "\<forall>k<n. ?go k"
    by blast
  show ?thesis
  proof (cases "request env (?m + n)")
    case (Inl e)
    note run = pFC_run_rejected [OF go Inl, of "identifier"]
    show ?thesis
      using go Inl by (intro exI [of _ n]) (simp add: run)
  next
    case (Inr r)
    show ?thesis
    proof (cases "content r = []")
      case True
      then have late: "\<not> ?obs n - startTime < FETCH_TIMEOUT"
        using stop_n Inr by simp
      note run = pFC_run_timeout [OF go Inr True late, of "identifier"]
      show ?thesis
        using go Inr late by (intro exI [of _ n]) (simp add: run)
    next
      case False
      note run = pFC_run_answered [OF go Inr False, of "identifier"]
      show ?thesis
        using go Inr False by (intro exI [of _ n]) (simp add: run try_catch_fields)
    qed
  qed
qed

text \<open>Where a chain of \<open>doFetch\<close> stands after at most \<open>fuel\<close> requests.\<close>

lemma doFetch_ends:
  "((\<forall>k<fuel. \<exists>r. request env (length (requests s) + k) = Inr r \<and> content r = []) \<and>
      doFetch fuel env identifier s = Pending (idle (fetch_url_raw env identifier) 500 env fuel s))
   \<or> (\<exists>n<fuel. \<exists>final.
        (\<forall>k<n. \<exists>r. request env (length (requests s) + k) = Inr r \<and> content r = []) \<and>
        doFetch fuel env identifier s = Settled final \<and>
        requests final =
          requests s @ attempts (fetch_url_raw env identifier) 500 env
                         (length (requests s)) (now s) (Suc n) \<and>
        ((\<exists>e. request env (length (requests s) + n) = Inl e \<and>
              unhandled final = unhandled s @ [e]) \<or>
         (\<exists>r. request env (length (requests s) + n) = Inr r \<and> content r \<noteq> [] \<and>
              unhandled final = unhandled s)))"
proof -
  let ?m = "length (requests s)"
  let ?go = "\<lambda>k. \<exists>r. request env (?m + k) = Inr r \<and> content r = []"
  show ?thesis
  proof (cases "\<forall>k<fuel. ?go k")
    case True
    from doFetch_idle_run [OF True, of 0 "identifier"] True show ?thesis
      by (simp add: doFetch.simps)
  next
    case False
    then obtain k0 where k0: "k0 < fuel" "\<not> ?go k0"
      by blast
    define n where "n = (LEAST k. \<not> ?go k)"
    have stop_n: "\<not> ?go n"
      unfolding n_def using k0(2) by (rule LeastI)
    have "n \<le> k0"
      unfolding n_def using k0(2) by (rule Least_le)
    then have "n < fuel"
      using k0(1) by simp
    then obtain j where fuel: "fuel = Suc (n + j)"
      using less_imp_Suc_add by blast
    have "\<not> \<not> ?go k" if "k < n" for k
      using that unfolding n_def by (rule not_less_Least)
    then have go: "\<forall>k<n. ?go k"
      by blast
    show ?thesis
    proof (cases "request env (?m + n)")
      case (Inl e)
      note run = doFetch_run_rejected [OF go Inl, of j "identifier"]
      show ?thesis
        using go Inl \<open>n < fuel\<close> unfolding fuel
        by (intro disjI2 exI [of _ n]) (simp add: run)
    next
      case (Inr r)
      then have ne: "content r \<noteq> []"
        using stop_n by simp
      note run = doFetch_run_answered [OF go Inr ne, of j "identifier"]
      show ?thesis
        using go Inr ne \<open>n < fuel\<close> unfolding fuel
        by (intro disjI2 exI [of _ n]) (simp add: run try_catch_fields)
    qed
  qed
qed

lemma payload_create:
  "fst (create env identifier options s) =
     doCreateUri env identifier ''callback'' (Some (provided options))"
  by (simp add: create_def provided_def given_def Let_def QUERY_KEYS_PATH_def
        QUERY_KEYS_QUERY_def QUERY_KEYS_FRAGMENT_def
      split: option.splits prod.splits)

lemma filter_deliveries:
  "distinct ls \<Longrightarrow> l \<in> set ls \<Longrightarrow>
   filter (\<lambda>d. fst d = l) (map (\<lambda>l'. (l', u)) ls) = [(l, u)]"
proof (induction ls)
  case Nil
  then show ?case by simp
next
  case (Cons a ls)
  have "l \<notin> set ls \<Longrightarrow> filter (\<lambda>d. fst d = l) (map (\<lambda>l'. (l', u)) ls) = []"
    by (induction ls) auto
  with Cons show ?case by auto
qed

lemma per_listener:
  "distinct ls \<Longrightarrow> l \<in> set ls \<Longrightarrow>
   map snd (filter (\<lambda>d. fst d = l) (concat (map (\<lambda>x. map (\<lambda>l'. (l', f x)) ls) xs))) = map f xs"
  by (induction xs) (simp_all add: filter_deliveries)

lemma create_always_empty:
  assumes "\<forall>k. \<exists>r. request env k = Inr r \<and> content r = []"
  shows "\<exists>n\<le>10.
     (\<forall>k<n. observed_at FETCH_INTERVAL env (length (requests s)) (now s) k - now s
              < FETCH_TIMEOUT) \<and>
     FETCH_TIMEOUT \<le> observed_at FETCH_INTERVAL env (length (requests s)) (now s) n - now s \<and>
     requests (snd (create env identifier options s)) =
       requests s @ attempts (fetch_url env identifier) FETCH_INTERVAL env
                      (length (requests s)) (now s) (Suc n) \<and>
     now (snd (create env identifier options s)) =
       observed_at FETCH_INTERVAL env (length (requests s)) (now s) n \<and>
     fired (snd (create env identifier options s)) = fired s \<and>
     delivered (snd (create env identifier options s)) = delivered s \<and>
     logged (snd (create env identifier options s)) = logged s \<and>
     unhandled (snd (create env identifier options s)) = unhandled s"
proof -
  let ?obs = "observed_at FETCH_INTERVAL env (length (requests s)) (now s)"
  let ?late = "\<lambda>k. FETCH_TIMEOUT \<le> ?obs k - now s"
  define n where "n = (LEAST k. ?late k)"
  have "now s + 10 * FETCH_INTERVAL \<le> ?obs 10"
    using sent_time_ge [of "now s" 10 FETCH_INTERVAL env "length (requests s)"]
      sent_time_le_observed_at [of FETCH_INTERVAL env "length (requests s)" "now s" 10]
    by simp
  then have late10: "?late 10"
    by (simp add: FETCH_INTERVAL_def FETCH_TIMEOUT_def)
  have n_le: "n \<le> 10"
    unfolding n_def using late10 by (rule Least_le)
  have late_n: "?late n"
    unfolding n_def using late10 by (rule LeastI)
  have early: "\<not> ?late k" if "k < n" for k
    using that unfolding n_def by (rule not_less_Least)
  have h1: "\<forall>k<n. \<exists>r. request env (length (requests s) + k) = Inr r \<and> content r = [] \<and>
       ?obs k - now s < FETCH_TIMEOUT"
    using assms early by (simp add: not_le)
  obtain r where r: "request env (length (requests s) + n) = Inr r" "content r = []"
    using assms by blast
  have h3: "\<not> ?obs n - now s < FETCH_TIMEOUT"
    using late_n by simp
  note run = pFC_run_timeout [OF h1 r h3, of "identifier"]
  have "\<forall>k<n. ?obs k - now s < FETCH_TIMEOUT"
    using early by (simp add: not_le)
  then show ?thesis
    using n_le late_n by (intro exI [of _ n]) (simp add: snd_create run)
qed

subsection \<open>Query strings and percent-encoding\<close>

lemma split_on_not_Nil: "split_on d xs \<noteq> []"
  by (induction xs) (auto split: list.splits)

lemma split_on_none: "d \<notin> set xs \<Longrightarrow> split_on d xs = [xs]"
  by (induction xs) auto

lemma split_on_append: "d \<notin> set xs \<Longrightarrow> split_on d (xs @ d # ys) = xs # split_on d ys"
  by (induction xs) auto

lemma hd_split_on: "hd (split_on d xs) = takeWhile (\<lambda>c. c \<noteq> d) xs"
  by (induction xs) (auto split: list.splits simp: split_on_not_Nil)

lemma length_split_on: "d \<in> set xs \<Longrightarrow> 1 < length (split_on d xs)"
proof (induction xs)
  case Nil
  then show ?case by simp
next
  case (Cons a xs)
  show ?case
  proof (cases "a = d")
    case True
    then show ?thesis
      using split_on_not_Nil [of d xs] by (cases "split_on d xs") auto
  next
    case False
    with Cons show ?thesis
      by (auto split: list.splits)
  qed
qed

lemma key_value_pair: "CHR ''='' \<notin> set k \<Longrightarrow> key_value (k @ CHR ''='' # v) = (k, v)"
  by (simp add: key_value_def takeWhile_append dropWhile_append)

lemma split_entries:
  "d \<notin> set p \<Longrightarrow> (\<forall>e\<in>set es. d \<notin> set e) \<Longrightarrow>
   split_on d (p @ concat (map (\<lambda>e. d # e) es)) = p # es"
proof (induction es arbitrary: p)
  case Nil
  then show ?case by (simp add: split_on_none)
next
  case (Cons e es)
  then show ?case by (simp add: split_on_append)
qed


lemma hexDigit_mem: "hexDigit n \<in> set ''0123456789ABCDEF''"
  unfolding hexDigit_def by (rule nth_mem) simp

lemma hexValue_hexDigit: "k < 16 \<Longrightarrow> hexValue (hexDigit k) = Some k"
proof -
  assume "k < 16"
  then consider "k = 0" | "k = 1" | "k = 2" | "k = 3" | "k = 4" | "k = 5" | "k = 6" | "k = 7"
    | "k = 8" | "k = 9" | "k = 10" | "k = 11" | "k = 12" | "k = 13" | "k = 14" | "k = 15"
    by atomize_elim arith
  then show ?thesis
    by cases (simp_all add: hexDigit_def hexValue_def)
qed

lemma percent_reserved: "\<not> unreserved CHR ''%''"
  by (simp add: unreserved_def)

lemma of_char_less_256: "(of_char c :: nat) < 256"
  by (metis of_char_mod_256 mod_less_divisor zero_less_numeral)

lemma decode_escape: "decodeURIComponent (percent_escape s) = Some s"
proof (induction s)
  case Nil
  then show ?case by simp
next
  case (Cons c s)
  show ?case
  proof (cases "unreserved c")
    case True
    then have "c \<noteq> CHR ''%''"
      using percent_reserved by auto
    with True Cons show ?thesis by simp
  next
    case False
    let ?n = "of_char c :: nat"
    have "?n div 16 < 16"
      using of_char_less_256 [of c] by arith
    then have hi: "hexValue (hexDigit (?n div 16)) = Some (?n div 16)"
      by (rule hexValue_hexDigit)
    have lo: "hexValue (hexDigit (?n mod 16)) = Some (?n mod 16)"
      by (intro hexValue_hexDigit) simp
    have "char_of (16 * (?n div 16) + ?n mod 16) = c"
      by simp
    with False Cons hi lo show ?thesis by simp
  qed
qed

lemma set_escape:
  "set (percent_escape s) \<subseteq> {c. unreserved c} \<union> insert CHR ''%'' (set ''0123456789ABCDEF'')"
proof (induction s)
  case Nil
  then show ?case by simp
next
  case (Cons c s)
  have "hexDigit (of_char c div 16) \<in> set ''0123456789ABCDEF''"
    "hexDigit (of_char c mod 16) \<in> set ''0123456789ABCDEF''"
    by (rule hexDigit_mem)+
  with Cons show ?case
    by (cases "unreserved c") auto
qed

lemma escape_no_separator:
  "CHR ''&'' \<notin> set (percent_escape s)" "CHR ''#'' \<notin> set (percent_escape s)"
  "CHR ''='' \<notin> set (percent_escape s)" "CHR ''?'' \<notin> set (percent_escape s)"
  using set_escape [of s] by (auto simp: unreserved_def)

lemma escape_unreserved: "\<forall>c\<in>set s. unreserved c \<Longrightarrow> percent_escape s = s"
  by (induction s) simp_all

lemma decode_unreserved: "\<forall>c\<in>set s. unreserved c \<Longrightarrow> decodeURIComponent s = Some s"
  using decode_escape [of s] by (simp add: escape_unreserved)

lemma unreserved_byte: "unreserved c \<Longrightarrow> (of_char c :: nat) \<noteq> 0xED"
  by (auto simp: unreserved_def)

lemma unreserved_no_surrogate: "\<forall>c\<in>set s. unreserved c \<Longrightarrow> \<not> lone_surrogate s"
  by (induction s rule: lone_surrogate.induct) (auto dest: unreserved_byte)

lemma encode_well_formed: "\<not> lone_surrogate s \<Longrightarrow> encodeURIComponent s = Inr (percent_escape s)"
  by (simp add: encodeURIComponent_def)

lemma encode_unreserved: "\<forall>c\<in>set s. unreserved c \<Longrightarrow> encodeURIComponent s = Inr s"
  by (simp add: encodeURIComponent_def unreserved_no_surrogate escape_unreserved)


lemma foldl_entries:
  "foldl (\<lambda>q (key, value). q @ CHR ''&'' # key @ CHR ''='' # value) q0 es =
     q0 @ concat (map (\<lambda>(key, value). CHR ''&'' # key @ CHR ''='' # value) es)"
  by (induction es arbitrary: q0) (auto split: prod.splits)

lemma doCreateUri_eq:
  "doCreateUri env identifier p payload =
     (URI_parse env (location_href env))
       \<lparr>path := p,
        query := ''vscode-id='' @ identifier @
           concat (map (\<lambda>(key, value). CHR ''&'' # key @ CHR ''='' # value)
                     (case payload of None \<Rightarrow> [] | Some es \<Rightarrow> es))\<rparr>"
  by (simp add: doCreateUri_def URI_with_def QUERY_KEYS_ID_def foldl_entries Let_def
      split: option.splits)

lemma query_text_eq:
  "query_text identifier es =
     ''vscode-id='' @ identifier @
       concat (map (\<lambda>(key, value). CHR ''&'' # key @ CHR ''='' # value) es)"
  by (simp add: query_text_def)

lemma doCreateUri_query_text:
  "doCreateUri env identifier p payload =
     (URI_parse env (location_href env))
       \<lparr>path := p,
        query := query_text identifier (case payload of None \<Rightarrow> [] | Some es \<Rightarrow> es)\<rparr>"
  by (simp add: doCreateUri_eq query_text_eq)

lemma baseAppUriRaw_eq:
  "baseAppUriRaw env identifier options =
     (if \<exists>(k, v)\<in>set (provided options). lone_surrogate v then Inl URIError
      else Inr (location_origin env @ ''/callback?'' @
                  query_text identifier (escaped (provided options))))"
  by (auto simp: baseAppUriRaw_def plus_encoded_def encodeURIComponent_def provided_def
        given_def query_text_def escaped_def Let_def
      split: option.splits prod.splits)

lemma provided_keys:
  "(k, v) \<in> set (provided options) \<Longrightarrow>
     k \<in> {''vscode-path'', ''vscode-query'', ''vscode-fragment''} \<and> v \<noteq> []"
  by (auto simp: provided_def given_def split: option.splits if_splits)

lemma parse_entries:
  assumes "CHR ''&'' \<notin> set identifier"
    and "\<forall>(k, v)\<in>set es. CHR ''&'' \<notin> set k \<and> CHR ''='' \<notin> set k \<and> CHR ''&'' \<notin> set v"
  shows "parse_query (''vscode-id='' @ identifier @
           concat (map (\<lambda>(key, value). CHR ''&'' # key @ CHR ''='' # value) es))
         = (''vscode-id'', identifier) # es"
proof -
  let ?p = "''vscode-id='' @ identifier"
  let ?es = "map (\<lambda>(key, value). key @ CHR ''='' # value) es"
  have eq: "concat (map (\<lambda>(key, value). CHR ''&'' # key @ CHR ''='' # value) es)
        = concat (map (\<lambda>e. CHR ''&'' # e) ?es)"
    by (induction es) auto
  have p: "CHR ''&'' \<notin> set ?p"
    using assms(1) by simp
  have es: "\<forall>e\<in>set ?es. CHR ''&'' \<notin> set e"
    using assms(2) by auto
  have "split_on CHR ''&'' (?p @ concat (map (\<lambda>e. CHR ''&'' # e) ?es)) = ?p # ?es"
    using p es by (rule split_entries)
  then have "split_on CHR ''&'' (''vscode-id='' @ identifier @
           concat (map (\<lambda>(key, value). CHR ''&'' # key @ CHR ''='' # value) es)) = ?p # ?es"
    by (simp only: eq append_assoc)
  moreover have "key_value ?p = (''vscode-id'', identifier)"
    using key_value_pair [of "''vscode-id''" "identifier"] by simp
  moreover have "map key_value ?es = es"
    using assms(2) by (induction es) (auto simp: key_value_pair)
  ultimately show ?thesis
    by (simp only: parse_query_def list.map)
qed

lemma url_query_eq:
  assumes "CHR ''?'' \<notin> set pre" and "CHR ''#'' \<notin> set q"
  shows "url_query (pre @ CHR ''?'' # q) = q"
proof -
  have "dropWhile (\<lambda>c. c \<noteq> CHR ''?'') (pre @ CHR ''?'' # q)
        = dropWhile (\<lambda>c. c \<noteq> CHR ''?'') (CHR ''?'' # q)"
    using assms(1) by (intro dropWhile_append2) auto
  also have "\<dots> = CHR ''?'' # q"
    by simp
  finally show ?thesis
    using assms(2) by (auto simp: url_query_def)
qed

lemma provided_no_sep:
  "(k, v) \<in> set (provided options) \<Longrightarrow> CHR ''&'' \<notin> set k \<and> CHR ''='' \<notin> set k"
  using provided_keys [of k v options] by auto

lemma parse_query_text:
  assumes "CHR ''&'' \<notin> set identifier"
    and "\<forall>(k, v)\<in>set es. CHR ''&'' \<notin> set k \<and> CHR ''='' \<notin> set k \<and> CHR ''&'' \<notin> set v"
  shows "parse_query (query_text identifier es) = (''vscode-id'', identifier) # es"
  unfolding query_text_eq by (rule parse_entries [OF assms])

lemma escaped_keys:
  "(k, v) \<in> set (escaped (provided options)) \<Longrightarrow>
     CHR ''&'' \<notin> set k \<and> CHR ''='' \<notin> set k \<and> CHR ''#'' \<notin> set k \<and>
     CHR ''&'' \<notin> set v \<and> CHR ''#'' \<notin> set v"
  using provided_keys escape_no_separator(1,2) by (fastforce simp: escaped_def)

lemma hash_query_text:
  assumes "CHR ''#'' \<notin> set identifier"
    and "\<forall>(k, v)\<in>set es. CHR ''#'' \<notin> set k \<and> CHR ''#'' \<notin> set v"
  shows "CHR ''#'' \<notin> set (query_text identifier es)"
proof -
  from assms(2)
  have "CHR ''#'' \<notin> set (concat (map (\<lambda>(key, value). CHR ''&'' # key @ CHR ''='' # value) es))"
    by (induction es) auto
  with assms(1) show ?thesis
    by (simp add: query_text_eq)
qed

text \<open>The first pair of a query that starts with the pair of the identifier.\<close>

lemma takeWhile_takeWhile:
  "takeWhile P (takeWhile Q xs) = takeWhile (\<lambda>x. P x \<and> Q x) xs"
  by (induction xs) simp_all

lemma takeWhile_stop:
  "rest = [] \<or> \<not> P (hd rest) \<Longrightarrow> takeWhile P (xs @ rest) = takeWhile P xs"
  by (induction xs) (auto simp: takeWhile_eq_Nil_iff neq_Nil_conv)

lemma hd_parse_query: "hd (parse_query q) = key_value (takeWhile (\<lambda>c. c \<noteq> CHR ''&'') q)"
  by (simp add: parse_query_def hd_map split_on_not_Nil hd_split_on)

lemma first_pair:
  assumes "rest = [] \<or> hd rest = CHR ''&''"
  shows "hd (parse_query (''vscode-id='' @ identifier @ rest)) =
           (''vscode-id'', takeWhile (\<lambda>c. c \<noteq> CHR ''&'') identifier)"
proof -
  have "takeWhile (\<lambda>c. c \<noteq> CHR ''&'') (identifier @ rest) = takeWhile (\<lambda>c. c \<noteq> CHR ''&'') identifier"
    using assms by (intro takeWhile_stop) auto
  then have a: "takeWhile (\<lambda>c. c \<noteq> CHR ''&'') (''vscode-id='' @ identifier @ rest)
               = ''vscode-id'' @ CHR ''='' # takeWhile (\<lambda>c. c \<noteq> CHR ''&'') identifier"
    by simp
  have b: "key_value (''vscode-id'' @ CHR ''='' # takeWhile (\<lambda>c. c \<noteq> CHR ''&'') identifier)
            = (''vscode-id'', takeWhile (\<lambda>c. c \<noteq> CHR ''&'') identifier)"
    by (rule key_value_pair) simp
  show ?thesis
    by (simp only: hd_parse_query a b)
qed

lemma first_pair_of_url:
  assumes "CHR ''?'' \<notin> set pre" and "rest = [] \<or> hd rest = CHR ''&''"
  shows "hd (parse_query (url_query (pre @ CHR ''?'' # ''vscode-id='' @ identifier @ rest))) =
           (''vscode-id'', takeWhile (\<lambda>c. c \<noteq> CHR ''&'' \<and> c \<noteq> CHR ''#'') identifier)"
proof -
  let ?q = "''vscode-id='' @ identifier @ rest"
  let ?P = "\<lambda>c. c \<noteq> CHR ''&'' \<and> c \<noteq> CHR ''#''"
  have "dropWhile (\<lambda>c. c \<noteq> CHR ''?'') (pre @ CHR ''?'' # ?q)
        = dropWhile (\<lambda>c. c \<noteq> CHR ''?'') (CHR ''?'' # ?q)"
    using assms(1) by (intro dropWhile_append2) auto
  then have u: "url_query (pre @ CHR ''?'' # ?q) = takeWhile (\<lambda>c. c \<noteq> CHR ''#'') ?q"
    by (simp add: url_query_def)
  have "takeWhile ?P (identifier @ rest) = takeWhile ?P identifier"
    using assms(2) by (intro takeWhile_stop) auto
  then have a: "takeWhile (\<lambda>c. c \<noteq> CHR ''&'') (takeWhile (\<lambda>c. c \<noteq> CHR ''#'') ?q)
               = ''vscode-id'' @ CHR ''='' # takeWhile ?P identifier"
    by (simp add: takeWhile_takeWhile)
  have b: "key_value (''vscode-id'' @ CHR ''='' # takeWhile ?P identifier)
            = (''vscode-id'', takeWhile ?P identifier)"
    by (rule key_value_pair) simp
  show ?thesis
    by (simp only: u hd_parse_query a b)
qed

lemma cut_identifier:
  "CHR ''&'' \<in> set identifier \<Longrightarrow> takeWhile (\<lambda>c. c \<noteq> CHR ''&'') identifier \<noteq> identifier"
  "CHR ''&'' \<in> set identifier \<Longrightarrow>
     takeWhile (\<lambda>c. c \<noteq> CHR ''&'' \<and> c \<noteq> CHR ''#'') identifier \<noteq> identifier"
  by (auto simp: takeWhile_eq_all_conv)

lemma query_text_rest:
  "\<exists>rest. query_text identifier es = ''vscode-id='' @ identifier @ rest \<and>
          (rest = [] \<or> hd rest = CHR ''&'')"
  by (cases es) (auto simp: query_text_eq)

lemma create_eq:
  "create env identifier options s =
     (doCreateUri env identifier ''callback'' (Some (provided options)),
      periodicFetchCallback env identifier (now s) s)"
  by (rule prod_eqI) (simp_all add: payload_create snd_create)

lemma create_doFetch_eq:
  "create_doFetch fuel env identifier options s =
     (if \<exists>(k, v)\<in>set (provided options). lone_surrogate v then Inl URIError
      else Inr (URI_parse env (location_origin env @ ''/callback?'' @
                                 query_text identifier (escaped (provided options))),
                doFetch fuel env identifier s))"
  by (simp add: create_doFetch_def baseAppUriRaw_eq Let_def)

lemma provided_empty:
  "provided (Some (opts\<lparr>o_path := Some []\<rparr>)) = provided (Some (opts\<lparr>o_path := None\<rparr>))"
  "provided (Some (opts\<lparr>o_query := Some []\<rparr>)) = provided (Some (opts\<lparr>o_query := None\<rparr>))"
  "provided (Some (opts\<lparr>o_fragment := Some []\<rparr>)) = provided (Some (opts\<lparr>o_fragment := None\<rparr>))"
  "provided (Some \<lparr>o_path = Some [], o_query = Some [], o_fragment = Some []\<rparr>) = []"
  by (simp_all add: provided_def given_def)

subsection \<open>The mocked platform\<close>

lemma mock_env_fields:
  "request (mock_env tr) = tr"
  "JSON_parse (mock_env tr) = mock_JSON_parse"
  "URI_toString (mock_env tr) = mock_toString"
  "location_origin (mock_env tr) = ''https://vscode.example''"
  "location_href (mock_env tr) = ''https://vscode.example/''"
  "URI_parse (mock_env tr) = mock_parse"
  "URI_parse (mock_env tr) (location_href (mock_env tr)) = mock_location"
  by (simp_all add: mock_env_def mock_parse_def mock_location_def url_query_def)

lemma mock_parse_location: "mock_parse ''https://vscode.example/'' = mock_location"
  by (simp add: mock_parse_def mock_location_def url_query_def)

lemma took_of_script: "took_of (script bodies k) = 0"
  by (simp add: took_of_def script_def)

lemma sent_time_script: "sent_time iv (mock_env (script bodies)) m t k = t + k * iv"
  by (induction k) (simp_all add: mock_env_fields took_of_script)

lemma observed_at_script: "observed_at iv (mock_env (script bodies)) m t k = t + k * iv"
  by (simp add: observed_at_def sent_time_script mock_env_fields took_of_script)

lemma fresh_fields:
  "now fresh = 0" "requests fresh = []" "listeners fresh = [0]" "fired fresh = []"
  "delivered fresh = []" "logged fresh = []" "unhandled fresh = []"
  by (simp_all add: fresh_def)

lemma unreachable_fields: "request (mock_env unreachable) k = Inl RequestFailed"
  by (simp add: mock_env_fields unreachable_def)

lemma provided_example:
  "provided (Some \<lparr>o_path = Some ''/a b&c'', o_query = Some ''x=1'', o_fragment = Some []\<rparr>)
     = [(''vscode-path'', ''/a b&c''), (''vscode-query'', ''x=1'')]"
  by (simp add: provided_def given_def)

subsection \<open>The requests of a session and the URI that \<open>create\<close> returns\<close>

lemma url_attempts: "q \<in> set (attempts u iv env m t n) \<Longrightarrow> url q = u"
  by (auto simp: attempts_def)

lemma fetch_url_eq:
  "fetch_url env identifier =
     URI_toString env ((URI_parse env (location_href env))
       \<lparr>path := ''fetch-callback'', query := ''vscode-id='' @ identifier\<rparr>)"
  by (simp add: doCreateUri_eq)

lemma pFC_requests:
  "\<exists>n. requests (periodicFetchCallback env identifier startTime s) =
         requests s @ attempts (fetch_url env identifier) FETCH_INTERVAL env
                        (length (requests s)) (now s) (Suc n)"
  using pFC_ends [of env s startTime "identifier"] by blast

lemma doFetch_requests:
  "\<exists>n. requests (state_of (doFetch fuel env identifier s)) =
         requests s @ attempts (fetch_url_raw env identifier) 500 env
                        (length (requests s)) (now s) n \<and> (0 < fuel \<longrightarrow> 0 < n)"
proof -
  from doFetch_ends [of fuel env s "identifier"]
  consider (pending) "doFetch fuel env identifier s =
              Pending (idle (fetch_url_raw env identifier) 500 env fuel s)"
    | (settled) n final where "doFetch fuel env identifier s = Settled final"
        "requests final =
          requests s @ attempts (fetch_url_raw env identifier) 500 env
                         (length (requests s)) (now s) (Suc n)"
    by blast
  then show ?thesis
  proof cases
    case pending
    then show ?thesis
      by (intro exI [of _ fuel]) (simp add: state_of_def idle_fields)
  next
    case settled
    then show ?thesis
      by (intro exI [of _ "Suc n"]) (simp add: state_of_def)
  qed
qed

lemma pFC_first_request:
  "\<exists>rest. requests (periodicFetchCallback env identifier startTime s) =
     requests s @
     \<lparr>url = URI_toString env ((URI_parse env (location_href env))
              \<lparr>path := ''fetch-callback'', query := ''vscode-id='' @ identifier\<rparr>),
       token = CancellationToken_None, sent_at = now s\<rparr> # rest"
proof -
  from pFC_requests [of env "identifier" startTime s] obtain n where
    "requests (periodicFetchCallback env identifier startTime s) =
       requests s @ attempts (fetch_url env identifier) FETCH_INTERVAL env
                      (length (requests s)) (now s) (Suc n)" ..
  then show ?thesis
    unfolding attempts_first fetch_url_eq by blast
qed

lemma doFetch_first_request:
  "\<exists>rest. requests (state_of (doFetch (Suc fuel) env identifier s)) =
     requests s @
     \<lparr>url = location_origin env @ ''/fetch-callback?vscode-id='' @ identifier,
       token = CancellationToken_None, sent_at = now s\<rparr> # rest"
proof -
  from doFetch_requests [of "Suc fuel" env "identifier" s] obtain n where
    n: "requests (state_of (doFetch (Suc fuel) env identifier s)) =
       requests s @ attempts (fetch_url_raw env identifier) 500 env
                      (length (requests s)) (now s) n" "0 < n"
    by auto
  from n(2) obtain m where "n = Suc m"
    by (cases n) auto
  with n(1) show ?thesis
    unfolding fetch_url_raw_def by (simp only: attempts_first) blast
qed

lemma pFC_urls:
  "q \<in> set (drop (length (requests s)) (requests (periodicFetchCallback env identifier startTime s)))
   \<Longrightarrow> url q = URI_toString env ((URI_parse env (location_href env))
                  \<lparr>path := ''fetch-callback'', query := ''vscode-id='' @ identifier\<rparr>)"
proof -
  assume q: "q \<in> set (drop (length (requests s))
                     (requests (periodicFetchCallback env identifier startTime s)))"
  from pFC_requests [of env "identifier" startTime s] obtain n where
    "requests (periodicFetchCallback env identifier startTime s) =
       requests s @ attempts (fetch_url env identifier) FETCH_INTERVAL env
                      (length (requests s)) (now s) (Suc n)" ..
  with q have "q \<in> set (attempts (fetch_url env identifier) FETCH_INTERVAL env
                      (length (requests s)) (now s) (Suc n))"
    by simp
  then have "url q = fetch_url env identifier"
    by (rule url_attempts)
  then show ?thesis
    by (simp only: fetch_url_eq)
qed

lemma doFetch_urls:
  "q \<in> set (drop (length (requests s)) (requests (state_of (doFetch fuel env identifier s))))
   \<Longrightarrow> url q = location_origin env @ ''/fetch-callback?vscode-id='' @ identifier"
proof -
  assume q: "q \<in> set (drop (length (requests s))
                     (requests (state_of (doFetch fuel env identifier s))))"
  from doFetch_requests [of fuel env "identifier" s] obtain n where
    "requests (state_of (doFetch fuel env identifier s)) =
       requests s @ attempts (fetch_url_raw env identifier) 500 env
                      (length (requests s)) (now s) n"
    by auto
  with q have "q \<in> set (attempts (fetch_url_raw env identifier) 500 env
                      (length (requests s)) (now s) n)"
    by simp
  then have "url q = fetch_url_raw env identifier"
    by (rule url_attempts)
  then show ?thesis
    by (simp only: fetch_url_raw_def)
qed

lemma create_uri:
  "fst (create env identifier options s) =
     (URI_parse env (location_href env))
       \<lparr>path := ''callback'', query := query_text identifier (provided options)\<rparr>"
  by (simp add: payload_create doCreateUri_query_text)

lemma create_doFetch_returns:
  "\<forall>(k, v)\<in>set (provided options). \<not> lone_surrogate v \<Longrightarrow>
   create_doFetch fuel env identifier options s =
     Inr (URI_parse env (location_origin env @ ''/callback?'' @
                           query_text identifier (escaped (provided options))),
          doFetch fuel env identifier s)"
  by (auto simp: create_doFetch_eq)

lemma create_doFetch_throws:
  "\<exists>(k, v)\<in>set (provided options). lone_surrogate v \<Longrightarrow>
   create_doFetch fuel env identifier options s = Inl URIError"
  by (simp add: create_doFetch_eq)

lemma returned_cases:
  "returned (create_doFetch fuel env identifier options s) = Some u \<Longrightarrow>
   (\<forall>(k, v)\<in>set (provided options). \<not> lone_surrogate v) \<and>
   u = URI_parse env (location_origin env @ ''/callback?'' @
                        query_text identifier (escaped (provided options)))"
  by (auto simp: create_doFetch_eq returned_def split: if_splits)

lemma provided_surrogate:
  "provided (Some \<lparr>o_path = Some [CHR 0xED, CHR 0xA0, CHR 0x80], o_query = None, o_fragment = None\<rparr>)
     = [(''vscode-path'', [CHR 0xED, CHR 0xA0, CHR 0x80])]"
  "lone_surrogate [CHR 0xED, CHR 0xA0, CHR 0x80]"
  by (simp_all add: provided_def given_def)

lemma escaped_example:
  "escaped [(''vscode-path'', ''/a b&c''), (''vscode-query'', ''x=1'')]
     = [(''vscode-path'', ''%2Fa%20b%26c''), (''vscode-query'', ''x%3D1'')]"
  by (simp add: escaped_def unreserved_def hexDigit_def)
subsection \<open>C1: empty answers, then an array\<close>

text \<open>
  C1, as amended. The transport answers the first \<open>N\<close> requests of the session with an
  empty body and the next one with a body that parses as an array of the records \<open>uris\<close>.
  \<^item> \<open>periodicFetchCallback\<close>: if each of the \<open>N\<close> empty answers is held while less than
    \<open>FETCH_TIMEOUT\<close> has passed since \<open>startTime\<close>, the session issues exactly \<open>N + 1\<close>
    requests, fires exactly the revived elements of \<open>uris\<close> in their order, and logs and
    raises nothing.
  \<^item> \<open>doFetch\<close>, which has no timeout: the chain settles within \<open>N + 1\<close> requests, with the
    same final state for any larger bound, and that state has the same properties.
\<close>

theorem empties_then_array:
  assumes "\<forall>k<N. \<exists>r. request env (length (requests s) + k) = Inr r \<and> content r = []"
    and "request env (length (requests s) + N) = Inr r" and "content r \<noteq> []"
    and "JSON_parse env (content r) = Inr (map Components uris)"
  shows "((\<forall>k<N. observed_at FETCH_INTERVAL env (length (requests s)) (now s) k - startTime
              < FETCH_TIMEOUT) \<longrightarrow>
          length (requests (periodicFetchCallback env identifier startTime s))
            = length (requests s) + Suc N \<and>
          fired (periodicFetchCallback env identifier startTime s)
            = fired s @ map URI_revive uris \<and>
          logged (periodicFetchCallback env identifier startTime s) = logged s \<and>
          unhandled (periodicFetchCallback env identifier startTime s) = unhandled s)
       \<and> (\<exists>final. (\<forall>fuel. doFetch (Suc (N + fuel)) env identifier s = Settled final) \<and>
             length (requests final) = length (requests s) + Suc N \<and>
             fired final = fired s @ map URI_revive uris \<and>
             logged final = logged s \<and> unhandled final = unhandled s)"
proof (intro conjI impI)
  assume t: "\<forall>k<N. observed_at FETCH_INTERVAL env (length (requests s)) (now s) k - startTime
              < FETCH_TIMEOUT"
  have a: "\<forall>k<N. \<exists>r. request env (length (requests s) + k) = Inr r \<and> content r = [] \<and>
       observed_at FETCH_INTERVAL env (length (requests s)) (now s) k - startTime < FETCH_TIMEOUT"
    using assms(1) t by blast
  note run = pFC_run_parsed [OF a assms(2,3,4)]
  show "length (requests (periodicFetchCallback env identifier startTime s))
            = length (requests s) + Suc N"
    by (simp add: run rest_forEach length_attempts)
  show "fired (periodicFetchCallback env identifier startTime s) = fired s @ map URI_revive uris"
    by (simp add: run fired_forEach)
  show "logged (periodicFetchCallback env identifier startTime s) = logged s"
    by (simp add: run rest_forEach)
  show "unhandled (periodicFetchCallback env identifier startTime s) = unhandled s"
    by (simp add: run rest_forEach)
next
  note run = doFetch_run_parsed [OF assms]
  show "\<exists>final. (\<forall>fuel. doFetch (Suc (N + fuel)) env identifier s = Settled final) \<and>
             length (requests final) = length (requests s) + Suc N \<and>
             fired final = fired s @ map URI_revive uris \<and>
             logged final = logged s \<and> unhandled final = unhandled s"
    by (intro exI conjI allI, rule run)
       (simp_all add: rest_forEach fired_forEach length_attempts)
qed

text \<open>
  The scenario of the specification: identifier \<^verbatim>\<open>abc123\<close>, three empty answers, then the
  array with the one record of \<^verbatim>\<open>https://example.com/done\<close>. Four requests are issued and
  that one URI is fired.
\<close>

theorem empties_then_array_witness:
  "length (requests (periodicFetchCallback (mock_env (script [[], [], [], done_body])) ''abc123'' 0 fresh)) = 4
   \<and> fired (periodicFetchCallback (mock_env (script [[], [], [], done_body])) ''abc123'' 0 fresh)
       = [\<lparr>scheme = ''https'', authority = ''example.com'', path = ''/done'', query = [], fragment = []\<rparr>]
   \<and> logged (periodicFetchCallback (mock_env (script [[], [], [], done_body])) ''abc123'' 0 fresh) = []
   \<and> unhandled (periodicFetchCallback (mock_env (script [[], [], [], done_body])) ''abc123'' 0 fresh) = []
   \<and> (\<exists>final. (\<forall>fuel. doFetch (Suc (3 + fuel)) (mock_env (script [[], [], [], done_body])) ''abc123'' fresh = Settled final)
         \<and> length (requests final) = 4
         \<and> fired final = [\<lparr>scheme = ''https'', authority = ''example.com'', path = ''/done'', query = [], fragment = []\<rparr>]
         \<and> logged final = [] \<and> unhandled final = [])"
proof -
  let ?env = "mock_env (script [[], [], [], done_body])"
  let ?r = "\<lparr>content = done_body, took = 0\<rparr>"
  have h1: "\<forall>k<3. \<exists>r. request ?env (length (requests fresh) + k) = Inr r \<and> content r = []"
    by (simp add: mock_env_fields fresh_fields script_def numeral_3_eq_3 All_less_Suc)
  have h2: "request ?env (length (requests fresh) + 3) = Inr ?r"
    by (simp add: mock_env_fields fresh_fields script_def)
  have h3: "content ?r \<noteq> []"
    by (simp add: done_body_def)
  have h4: "JSON_parse ?env (content ?r) = Inr (map Components [done_components])"
    by (simp add: mock_env_fields mock_JSON_parse_def)
  have t: "\<forall>k<3. observed_at FETCH_INTERVAL ?env (length (requests fresh)) (now fresh) k - 0
             < FETCH_TIMEOUT"
    by (simp add: observed_at_script fresh_fields FETCH_INTERVAL_def FETCH_TIMEOUT_def
          numeral_3_eq_3 All_less_Suc)
  from empties_then_array [OF h1 h2 h3 h4, of 0 "''abc123''"] t show ?thesis
    by (simp add: fresh_fields URI_revive_def done_components_def orEmpty_def)
qed

text \<open>
  C1 as stated fails once the timeout comes first. The transport answers at once, eleven
  times with an empty body and then with the array: the eleventh empty answer is held 5000 ms
  after the start, so \<open>periodicFetchCallback\<close> stops after 11 requests, not 12, and fires
  nothing.
\<close>

theorem timeout_before_array_counterexample:
  "script (replicate 11 [] @ [done_body]) 11 = Inr \<lparr>content = done_body, took = 0\<rparr>
   \<and> mock_JSON_parse done_body = Inr [Components done_components]
   \<and> length (requests (periodicFetchCallback
        (mock_env (script (replicate 11 [] @ [done_body]))) ''abc123'' 0 fresh)) = 11
   \<and> fired (periodicFetchCallback
        (mock_env (script (replicate 11 [] @ [done_body]))) ''abc123'' 0 fresh) = []"
proof -
  let ?bodies = "replicate 11 [] @ [done_body]"
  let ?env = "mock_env (script ?bodies)"
  have empty: "k < 11 \<Longrightarrow> script ?bodies k = Inr \<lparr>content = [], took = 0\<rparr>" for k
    by (simp add: script_def nth_append)
  have h1: "\<forall>k<10. \<exists>r. request ?env (length (requests fresh) + k) = Inr r \<and> content r = [] \<and>
       observed_at FETCH_INTERVAL ?env (length (requests fresh)) (now fresh) k - 0 < FETCH_TIMEOUT"
    by (simp add: mock_env_fields fresh_fields empty observed_at_script
          FETCH_INTERVAL_def FETCH_TIMEOUT_def)
  have h2: "request ?env (length (requests fresh) + 10) = Inr \<lparr>content = [], took = 0\<rparr>"
    by (simp add: mock_env_fields fresh_fields empty)
  have h3: "\<not> observed_at FETCH_INTERVAL ?env (length (requests fresh)) (now fresh) 10 - 0
              < FETCH_TIMEOUT"
    by (simp add: observed_at_script fresh_fields FETCH_INTERVAL_def FETCH_TIMEOUT_def)
  note run = pFC_run_timeout [OF h1 h2 _ h3, of "''abc123''"]
  have "script ?bodies 11 = Inr \<lparr>content = done_body, took = 0\<rparr>"
    by (simp add: script_def nth_append)
  moreover have "mock_JSON_parse done_body = Inr [Components done_components]"
    by (simp add: mock_JSON_parse_def)
  ultimately show ?thesis
    by (simp add: run fresh_fields length_attempts)
qed

subsection \<open>C2: a transport that always answers with an empty body\<close>

text \<open>
  C2, as amended. The transport answers every request with an empty body.
  \<^item> The session that \<open>create\<close> starts at time \<open>now s\<close> issues the attempts \<open>0, \<dots>, n\<close> for
    some \<open>n \<le> 10\<close>: attempt \<open>k + 1\<close> is issued exactly \<open>FETCH_INTERVAL\<close> after the answer to
    attempt \<open>k\<close> was held (\<open>sent_time\<close>), the answers to the attempts before \<open>n\<close> were held
    before \<open>FETCH_TIMEOUT\<close> had passed, the answer to attempt \<open>n\<close> was held when it had, and
    nothing follows it.
  \<^item> The chain of \<open>doFetch\<close>, which has no timeout, is still pending after any number of
    requests, each issued 500 ms after the answer to the one before it was held.

  In both, no URI is fired or delivered, nothing is logged and no rejection is left
  unhandled.
\<close>

theorem always_empty_polling:
  assumes "\<forall>k. \<exists>r. request env k = Inr r \<and> content r = []"
  shows "(\<exists>n\<le>10.
     (\<forall>k<n. observed_at FETCH_INTERVAL env (length (requests s)) (now s) k - now s
              < FETCH_TIMEOUT) \<and>
     FETCH_TIMEOUT \<le> observed_at FETCH_INTERVAL env (length (requests s)) (now s) n - now s \<and>
     requests (snd (create env identifier options s)) =
       requests s @ attempts (fetch_url env identifier) FETCH_INTERVAL env
                      (length (requests s)) (now s) (Suc n) \<and>
     now (snd (create env identifier options s)) =
       observed_at FETCH_INTERVAL env (length (requests s)) (now s) n \<and>
     fired (snd (create env identifier options s)) = fired s \<and>
     delivered (snd (create env identifier options s)) = delivered s \<and>
     logged (snd (create env identifier options s)) = logged s \<and>
     unhandled (snd (create env identifier options s)) = unhandled s)
   \<and> (\<forall>fuel. \<exists>p. doFetch fuel env identifier s = Pending p \<and>
         requests p = requests s @ attempts (fetch_url_raw env identifier) 500 env
                                     (length (requests s)) (now s) fuel \<and>
         now p = sent_time 500 env (length (requests s)) (now s) fuel \<and>
         fired p = fired s \<and> delivered p = delivered s \<and>
         logged p = logged s \<and> unhandled p = unhandled s)"
proof (intro conjI allI)
  show "\<exists>n\<le>10.
     (\<forall>k<n. observed_at FETCH_INTERVAL env (length (requests s)) (now s) k - now s
              < FETCH_TIMEOUT) \<and>
     FETCH_TIMEOUT \<le> observed_at FETCH_INTERVAL env (length (requests s)) (now s) n - now s \<and>
     requests (snd (create env identifier options s)) =
       requests s @ attempts (fetch_url env identifier) FETCH_INTERVAL env
                      (length (requests s)) (now s) (Suc n) \<and>
     now (snd (create env identifier options s)) =
       observed_at FETCH_INTERVAL env (length (requests s)) (now s) n \<and>
     fired (snd (create env identifier options s)) = fired s \<and>
     delivered (snd (create env identifier options s)) = delivered s \<and>
     logged (snd (create env identifier options s)) = logged s \<and>
     unhandled (snd (create env identifier options s)) = unhandled s"
    by (rule create_always_empty [OF assms])
next
  fix fuel
  show "\<exists>p. doFetch fuel env identifier s = Pending p \<and>
         requests p = requests s @ attempts (fetch_url_raw env identifier) 500 env
                                     (length (requests s)) (now s) fuel \<and>
         now p = sent_time 500 env (length (requests s)) (now s) fuel \<and>
         fired p = fired s \<and> delivered p = delivered s \<and>
         logged p = logged s \<and> unhandled p = unhandled s"
    by (simp add: doFetch_always_empty [OF assms] idle_fields)
qed

text \<open>
  With a transport that answers at once, the eleven requests are issued at 0, 500, \<dots>, 5000 ms.
\<close>

theorem always_empty_polling_witness:
  "(\<forall>k. \<exists>r. request (mock_env (script [])) k = Inr r \<and> content r = [])
   \<and> map sent_at (requests (snd (create (mock_env (script [])) ''abc123'' None fresh)))
       = [0, 500, 1000, 1500, 2000, 2500, 3000, 3500, 4000, 4500, 5000]
   \<and> now (snd (create (mock_env (script [])) ''abc123'' None fresh)) = 5000
   \<and> fired (snd (create (mock_env (script [])) ''abc123'' None fresh)) = []
   \<and> logged (snd (create (mock_env (script [])) ''abc123'' None fresh)) = []
   \<and> unhandled (snd (create (mock_env (script [])) ''abc123'' None fresh)) = []"
proof -
  let ?env = "mock_env (script [])"
  have h: "\<forall>k. \<exists>r. request ?env k = Inr r \<and> content r = []"
    by (simp add: mock_env_fields script_def)
  from always_empty_polling [OF h, of fresh "''abc123''" None, THEN conjunct1]
  obtain n where n: "n \<le> 10"
    "\<forall>k<n. k * 500 < (5000::nat)" "(5000::nat) \<le> n * 500"
    and final: "requests (snd (create ?env ''abc123'' None fresh)) =
       attempts (fetch_url ?env ''abc123'') FETCH_INTERVAL ?env 0 0 (Suc n)"
      "now (snd (create ?env ''abc123'' None fresh)) = n * 500"
      "fired (snd (create ?env ''abc123'' None fresh)) = []"
      "logged (snd (create ?env ''abc123'' None fresh)) = []"
      "unhandled (snd (create ?env ''abc123'' None fresh)) = []"
    by (auto simp: observed_at_script fresh_fields FETCH_INTERVAL_def FETCH_TIMEOUT_def)
  from n have "n = 10" by arith
  have "map sent_at (attempts u 500 ?env 0 0 11) =
      [0, 500, 1000, 1500, 2000, 2500, 3000, 3500, 4000, 4500, 5000]" for u
    by (simp add: attempts_def sent_time_script upt_rec [of _ "numeral _"] comp_def)
  with h final \<open>n = 10\<close> show ?thesis
    by (simp add: FETCH_INTERVAL_def)
qed

text \<open>
  C2 as stated fails for \<open>doFetch\<close>: against the transport that answers at once with an
  empty body, the chain is still polling after 601 requests, 300500 ms after its start.
\<close>

theorem doFetch_keeps_polling_counterexample:
  "doFetch 601 (mock_env (script [])) ''abc123'' fresh =
     Pending (idle (fetch_url_raw (mock_env (script [])) ''abc123'') 500 (mock_env (script [])) 601 fresh)
   \<and> length (requests (idle (fetch_url_raw (mock_env (script [])) ''abc123'') 500
                 (mock_env (script [])) 601 fresh)) = 601
   \<and> now (idle (fetch_url_raw (mock_env (script [])) ''abc123'') 500 (mock_env (script [])) 601 fresh)
       = 300500"
proof -
  have h: "\<forall>k. \<exists>r. request (mock_env (script [])) k = Inr r \<and> content r = []"
    by (simp add: mock_env_fields script_def)
  show ?thesis
    by (simp add: doFetch_always_empty [OF h] idle_fields length_attempts sent_time_script
          fresh_fields)
qed

subsection \<open>C3: the interval and the timeout\<close>

text \<open>
  C3. The interval is 500 ms in both revisions. The timeout constant is written
  \<^verbatim>\<open>1000 * 5\<close>, which is 5000 ms and not the 5 \<times> 60 s = 300000 ms of the claim and of the comment
  beside the constant: against a transport that always answers at once with an empty body
  the session ends 5000 ms after its start, with its eleventh request.
\<close>

theorem FETCH_TIMEOUT_is_five_seconds:
  "FETCH_INTERVAL = 500 \<and> FETCH_TIMEOUT = 5000 \<and> FETCH_TIMEOUT \<noteq> 5 * 60 * 1000
   \<and> length (requests (periodicFetchCallback (mock_env (script [])) ''abc123'' 0 fresh)) = 11
   \<and> now (periodicFetchCallback (mock_env (script [])) ''abc123'' 0 fresh) = 5000"
proof -
  let ?env = "mock_env (script [])"
  have h1: "\<forall>k<10. \<exists>r. request ?env (length (requests fresh) + k) = Inr r \<and> content r = [] \<and>
       observed_at FETCH_INTERVAL ?env (length (requests fresh)) (now fresh) k - 0 < FETCH_TIMEOUT"
    by (simp add: mock_env_fields fresh_fields script_def observed_at_script
          FETCH_INTERVAL_def FETCH_TIMEOUT_def)
  have h2: "request ?env (length (requests fresh) + 10) = Inr \<lparr>content = [], took = 0\<rparr>"
    by (simp add: mock_env_fields fresh_fields script_def)
  have h3: "\<not> observed_at FETCH_INTERVAL ?env (length (requests fresh)) (now fresh) 10 - 0
              < FETCH_TIMEOUT"
    by (simp add: observed_at_script fresh_fields FETCH_INTERVAL_def FETCH_TIMEOUT_def)
  note run = pFC_run_timeout [OF h1 h2 _ h3, of "''abc123''"]
  show ?thesis
    by (simp add: run fresh_fields length_attempts observed_at_script)
       (simp add: FETCH_INTERVAL_def FETCH_TIMEOUT_def)
qed

subsection \<open>C4: a body that is no array of records\<close>



subsection \<open>C5: the query of the callback URI\<close>

text \<open>
  C5, as amended, for an identifier without \<^verbatim>\<open>&\<close>.
  \<^item> A URI that \<open>create_doFetch\<close> returns is \<^verbatim>\<open>URI.parse\<close> of the text made of the origin,
    \<^verbatim>\<open>/callback?\<close>, the pair \<^verbatim>\<open>vscode-id=<identifier>\<close> and, for each optional field that is given
    and not empty, in the order path, query, fragment, \<^verbatim>\<open>&\<close>, its key, \<^verbatim>\<open>=\<close> and its value
    percent-encoded. The query text reads back as exactly these pairs, and decoding each
    encoded value gives the original string. When the identifier has no \<^verbatim>\<open>#\<close> either (and the
    origin no \<^verbatim>\<open>?\<close>), this query text is the query of the whole text, and it is the query
    of the returned URI when \<^verbatim>\<open>URI.parse\<close> leaves the query as it is written.
  \<^item> When the values of the given fields consist of unreserved characters only, which
    percent-encoding leaves as they are, \<open>create\<close> returns the current location with the
    path \<^verbatim>\<open>callback\<close> and a query that reads back as exactly the same pairs.
\<close>

theorem callback_uri_query:
  assumes "CHR ''&'' \<notin> set identifier"
  shows "((\<forall>(k, v)\<in>set (provided options). \<forall>c\<in>set v. unreserved c) \<longrightarrow>
            fst (create env identifier options s) =
              (URI_parse env (location_href env))
                \<lparr>path := ''callback'', query := query_text identifier (provided options)\<rparr> \<and>
            parse_query (query (fst (create env identifier options s)))
              = (''vscode-id'', identifier) # provided options \<and>
            (\<forall>(k, v)\<in>set (provided options).
               encodeURIComponent v = Inr v \<and> decodeURIComponent v = Some v))
       \<and> (\<forall>u. returned (create_doFetch fuel env identifier options s) = Some u \<longrightarrow>
            u = URI_parse env (location_origin env @ ''/callback?'' @
                                 query_text identifier (escaped (provided options))) \<and>
            parse_query (query_text identifier (escaped (provided options)))
              = (''vscode-id'', identifier) # escaped (provided options) \<and>
            (\<forall>(k, v)\<in>set (provided options).
               encodeURIComponent v = Inr (percent_escape v) \<and>
               decodeURIComponent (percent_escape v) = Some v) \<and>
            (CHR ''?'' \<notin> set (location_origin env) \<and> CHR ''#'' \<notin> set identifier \<longrightarrow>
               url_query (location_origin env @ ''/callback?'' @
                            query_text identifier (escaped (provided options)))
                 = query_text identifier (escaped (provided options)) \<and>
               (query u = url_query (location_origin env @ ''/callback?'' @
                                       query_text identifier (escaped (provided options))) \<longrightarrow>
                  parse_query (query u) = (''vscode-id'', identifier) # escaped (provided options))))"
proof (intro conjI impI allI)
  assume plain: "\<forall>(k, v)\<in>set (provided options). \<forall>c\<in>set v. unreserved c"
  show a: "fst (create env identifier options s) =
              (URI_parse env (location_href env))
                \<lparr>path := ''callback'', query := query_text identifier (provided options)\<rparr>"
    by (rule create_uri)
  have "\<not> unreserved CHR ''&''"
    by (simp add: unreserved_def)
  with plain have "\<forall>(k, v)\<in>set (provided options). CHR ''&'' \<notin> set v"
    by fastforce
  then have "\<forall>(k, v)\<in>set (provided options).
            CHR ''&'' \<notin> set k \<and> CHR ''='' \<notin> set k \<and> CHR ''&'' \<notin> set v"
    using provided_no_sep by fastforce
  from parse_query_text [OF assms this]
  show "parse_query (query (fst (create env identifier options s)))
              = (''vscode-id'', identifier) # provided options"
    by (simp add: a)
  from plain
  show "\<forall>(k, v)\<in>set (provided options). encodeURIComponent v = Inr v \<and> decodeURIComponent v = Some v"
    by (auto simp: encode_unreserved decode_unreserved)
next
  fix u
  assume r: "returned (create_doFetch fuel env identifier options s) = Some u"
  let ?q = "query_text identifier (escaped (provided options))"
  note c = returned_cases [OF r]
  show "u = URI_parse env (location_origin env @ ''/callback?'' @ ?q)"
    by (rule c [THEN conjunct2])
  have es: "\<forall>(k, v)\<in>set (escaped (provided options)).
            CHR ''&'' \<notin> set k \<and> CHR ''='' \<notin> set k \<and> CHR ''&'' \<notin> set v"
    using escaped_keys by fastforce
  show p: "parse_query ?q = (''vscode-id'', identifier) # escaped (provided options)"
    by (rule parse_query_text [OF assms es])
  from c [THEN conjunct1]
  show "\<forall>(k, v)\<in>set (provided options).
               encodeURIComponent v = Inr (percent_escape v) \<and>
               decodeURIComponent (percent_escape v) = Some v"
    by (auto simp: encode_well_formed decode_escape)
  {
    assume h: "CHR ''?'' \<notin> set (location_origin env) \<and> CHR ''#'' \<notin> set identifier"
    have "\<forall>(k, v)\<in>set (escaped (provided options)). CHR ''#'' \<notin> set k \<and> CHR ''#'' \<notin> set v"
      using escaped_keys by fastforce
    with h have hash: "CHR ''#'' \<notin> set ?q"
      by (intro hash_query_text) simp_all
    have pre: "CHR ''?'' \<notin> set (location_origin env @ ''/callback'')"
      using h by simp
    have "location_origin env @ ''/callback?'' @ ?q = (location_origin env @ ''/callback'') @ CHR ''?'' # ?q"
      by simp
    then show q: "url_query (location_origin env @ ''/callback?'' @ ?q) = ?q"
      using url_query_eq [OF pre hash] by (simp only:)
    assume "query u = url_query (location_origin env @ ''/callback?'' @ ?q)"
    then show "parse_query (query u) = (''vscode-id'', identifier) # escaped (provided options)"
      by (simp only: q p)
  }
qed

text \<open>
  The identifier \<^verbatim>\<open>abc123\<close>, with the path \<^verbatim>\<open>/a b&c\<close> and the query \<^verbatim>\<open>x=1\<close> where the values are
  encoded, and with the path \<^verbatim>\<open>a.b\<close> and the query \<^verbatim>\<open>x\<close> where they are not.
\<close>

theorem callback_uri_query_witness:
  "returned (create_doFetch 1 (mock_env (script [])) ''abc123''
       (Some \<lparr>o_path = Some ''/a b&c'', o_query = Some ''x=1'', o_fragment = Some []\<rparr>) fresh)
     = Some (mock_parse
         ''https://vscode.example/callback?vscode-id=abc123&vscode-path=%2Fa%20b%26c&vscode-query=x%3D1'')
   \<and> parse_query (query (mock_parse
         ''https://vscode.example/callback?vscode-id=abc123&vscode-path=%2Fa%20b%26c&vscode-query=x%3D1''))
     = [(''vscode-id'', ''abc123''), (''vscode-path'', ''%2Fa%20b%26c''), (''vscode-query'', ''x%3D1'')]
   \<and> decodeURIComponent ''%2Fa%20b%26c'' = Some ''/a b&c''
   \<and> decodeURIComponent ''x%3D1'' = Some ''x=1''
   \<and> fst (create (mock_env (script [])) ''abc123''
        (Some \<lparr>o_path = Some ''a.b'', o_query = Some ''x'', o_fragment = Some []\<rparr>) fresh)
     = mock_location\<lparr>path := ''callback'', query := ''vscode-id=abc123&vscode-path=a.b&vscode-query=x''\<rparr>
   \<and> parse_query (query (fst (create (mock_env (script [])) ''abc123''
        (Some \<lparr>o_path = Some ''a.b'', o_query = Some ''x'', o_fragment = Some []\<rparr>) fresh)))
     = [(''vscode-id'', ''abc123''), (''vscode-path'', ''a.b''), (''vscode-query'', ''x'')]"
proof -
  let ?env = "mock_env (script [])"
  let ?o = "Some \<lparr>o_path = Some ''/a b&c'', o_query = Some ''x=1'', o_fragment = Some []\<rparr>"
  let ?o' = "Some \<lparr>o_path = Some ''a.b'', o_query = Some ''x'', o_fragment = Some []\<rparr>"
  let ?t = "''https://vscode.example/callback?vscode-id=abc123&vscode-path=%2Fa%20b%26c&vscode-query=x%3D1''"
  have id: "CHR ''&'' \<notin> set ''abc123''"
    by simp
  have p': "provided ?o' = [(''vscode-path'', ''a.b''), (''vscode-query'', ''x'')]"
    by (simp add: provided_def given_def)
  have plain: "\<forall>(k, v)\<in>set (provided ?o'). \<forall>c\<in>set v. unreserved c"
    by (simp add: p' unreserved_def)
  have t: "location_origin ?env @ ''/callback?'' @ query_text ''abc123'' (escaped (provided ?o)) = ?t"
    by (simp add: mock_env_fields provided_example escaped_example query_text_eq)
  have r: "returned (create_doFetch 1 ?env ''abc123'' ?o fresh) = Some (mock_parse ?t)"
    by (simp add: create_doFetch_eq returned_def provided_example mock_env_fields t [symmetric])
  have pre: "CHR ''?'' \<notin> set (location_origin ?env) \<and> CHR ''#'' \<notin> set ''abc123''"
    by (simp add: mock_env_fields)
  have kept: "query (mock_parse ?t) = url_query ?t"
    by (simp add: mock_parse_def Let_def)
  note w = callback_uri_query [OF id, of ?o ?env fresh 1]
  note w' = callback_uri_query [OF id, of ?o' ?env fresh 1]
  note a = w' [THEN conjunct1, THEN mp, OF plain]
  note b = w [THEN conjunct2, THEN spec, THEN mp, OF r]
  note b4 = b [THEN conjunct2, THEN conjunct2, THEN conjunct2, THEN mp, OF pre]
  from b4 [THEN conjunct2, unfolded t, THEN mp, OF kept]
  have parsed: "parse_query (query (mock_parse ?t))
      = [(''vscode-id'', ''abc123''), (''vscode-path'', ''%2Fa%20b%26c''), (''vscode-query'', ''x%3D1'')]"
    by (simp add: provided_example escaped_example)
  from b [THEN conjunct2, THEN conjunct2, THEN conjunct1]
  have dec: "decodeURIComponent ''%2Fa%20b%26c'' = Some ''/a b&c''"
      "decodeURIComponent ''x%3D1'' = Some ''x=1''"
    by (simp_all add: provided_example unreserved_def hexDigit_def)
  from a [THEN conjunct1]
  have uri: "fst (create ?env ''abc123'' ?o' fresh)
      = mock_location\<lparr>path := ''callback'', query := ''vscode-id=abc123&vscode-path=a.b&vscode-query=x''\<rparr>"
    by (simp add: p' query_text_eq mock_env_fields mock_parse_location)
  from a [THEN conjunct2, THEN conjunct1]
  have parsed': "parse_query (query (fst (create ?env ''abc123'' ?o' fresh)))
      = [(''vscode-id'', ''abc123''), (''vscode-path'', ''a.b''), (''vscode-query'', ''x'')]"
    by (simp add: p')
  from r parsed dec uri parsed' show ?thesis
    by (intro conjI)
qed

text \<open>
  C5 as stated fails for an identifier with \<^verbatim>\<open>&\<close>: the key \<^verbatim>\<open>b\<close> appears, in both revisions. In
  the text that \<open>create_doFetch\<close> builds, an identifier with \<^verbatim>\<open>#\<close> ends the query before the
  key of the path. And where \<^verbatim>\<open>URI.parse\<close> percent-decodes the query, the URI that
  \<open>create_doFetch\<close> returns for the path \<^verbatim>\<open>/a b&c\<close> has the key \<^verbatim>\<open>c\<close> in its query and no encoded
  value.
\<close>

theorem callback_uri_query_counterexample:
  "parse_query (query (fst (create (mock_env (script [])) ''a&b'' None fresh)))
     = [(''vscode-id'', ''a''), (''b'', [])]
   \<and> returned (create_doFetch 1 (mock_env (script [])) ''a&b'' None fresh)
     = Some (mock_parse ''https://vscode.example/callback?vscode-id=a&b'')
   \<and> parse_query (query (mock_parse ''https://vscode.example/callback?vscode-id=a&b''))
     = [(''vscode-id'', ''a''), (''b'', [])]
   \<and> returned (create_doFetch 1 (mock_env (script [])) ''a#b''
        (Some \<lparr>o_path = Some ''p'', o_query = None, o_fragment = None\<rparr>) fresh)
     = Some (mock_parse ''https://vscode.example/callback?vscode-id=a#b&vscode-path=p'')
   \<and> parse_query (query (mock_parse ''https://vscode.example/callback?vscode-id=a#b&vscode-path=p''))
     = [(''vscode-id'', ''a'')]
   \<and> returned (create_doFetch 1 ((mock_env (script []))\<lparr>URI_parse := decoding_parse\<rparr>) ''abc123''
        (Some \<lparr>o_path = Some ''/a b&c'', o_query = Some ''x=1'', o_fragment = Some []\<rparr>) fresh)
     = Some (decoding_parse
         ''https://vscode.example/callback?vscode-id=abc123&vscode-path=%2Fa%20b%26c&vscode-query=x%3D1'')
   \<and> parse_query (query (decoding_parse
         ''https://vscode.example/callback?vscode-id=abc123&vscode-path=%2Fa%20b%26c&vscode-query=x%3D1''))
     = [(''vscode-id'', ''abc123''), (''vscode-path'', ''/a b''), (''c'', []),
        (''vscode-query'', ''x=1'')]"
proof -
  have a: "parse_query (query (fst (create (mock_env (script [])) ''a&b'' None fresh)))
     = [(''vscode-id'', ''a''), (''b'', [])]"
    by (simp add: create_uri query_text_eq provided_def parse_query_def key_value_def)
  have b: "returned (create_doFetch 1 (mock_env (script [])) ''a&b'' None fresh)
     = Some (mock_parse ''https://vscode.example/callback?vscode-id=a&b'')"
    by (simp add: create_doFetch_eq returned_def provided_def escaped_def query_text_eq
          mock_env_fields)
  have b': "parse_query (query (mock_parse ''https://vscode.example/callback?vscode-id=a&b''))
     = [(''vscode-id'', ''a''), (''b'', [])]"
    by (simp add: mock_parse_def url_query_def parse_query_def key_value_def)
  have c: "returned (create_doFetch 1 (mock_env (script [])) ''a#b''
        (Some \<lparr>o_path = Some ''p'', o_query = None, o_fragment = None\<rparr>) fresh)
     = Some (mock_parse ''https://vscode.example/callback?vscode-id=a#b&vscode-path=p'')"
    by (simp add: create_doFetch_eq returned_def provided_def given_def escaped_def query_text_eq
          unreserved_def mock_env_fields)
  have c': "parse_query (query (mock_parse ''https://vscode.example/callback?vscode-id=a#b&vscode-path=p''))
     = [(''vscode-id'', ''a'')]"
    by (simp add: mock_parse_def url_query_def parse_query_def key_value_def)
  have t: "url_query ''https://vscode.example/callback?vscode-id=abc123&vscode-path=%2Fa%20b%26c&vscode-query=x%3D1''
             = ''vscode-id=abc123&vscode-path=%2Fa%20b%26c&vscode-query=x%3D1''"
    by (simp add: url_query_def)
  have dec: "decodeURIComponent ''vscode-id=abc123&vscode-path=%2Fa%20b%26c&vscode-query=x%3D1''
             = Some ''vscode-id=abc123&vscode-path=/a b&c&vscode-query=x=1''"
    by code_simp
  have pq: "parse_query ''vscode-id=abc123&vscode-path=/a b&c&vscode-query=x=1''
             = [(''vscode-id'', ''abc123''), (''vscode-path'', ''/a b''), (''c'', []),
                (''vscode-query'', ''x=1'')]"
    by (simp add: parse_query_def key_value_def)
  have d: "returned (create_doFetch 1 ((mock_env (script []))\<lparr>URI_parse := decoding_parse\<rparr>) ''abc123''
           (Some \<lparr>o_path = Some ''/a b&c'', o_query = Some ''x=1'', o_fragment = Some []\<rparr>) fresh)
     = Some (decoding_parse
         ''https://vscode.example/callback?vscode-id=abc123&vscode-path=%2Fa%20b%26c&vscode-query=x%3D1'')"
    by (simp add: create_doFetch_eq returned_def provided_example escaped_example query_text_eq
          mock_env_def)
  have "query (decoding_parse
         ''https://vscode.example/callback?vscode-id=abc123&vscode-path=%2Fa%20b%26c&vscode-query=x%3D1'')
     = ''vscode-id=abc123&vscode-path=/a b&c&vscode-query=x=1''"
    unfolding decoding_parse_def t dec by simp
  with pq
  have d': "parse_query (query (decoding_parse
         ''https://vscode.example/callback?vscode-id=abc123&vscode-path=%2Fa%20b%26c&vscode-query=x%3D1''))
     = [(''vscode-id'', ''abc123''), (''vscode-path'', ''/a b''), (''c'', []),
        (''vscode-query'', ''x=1'')]"
    by (simp only:)
  from a b b' c c' d d' show ?thesis
    by (intro conjI)
qed

text \<open>
  The revision with \<open>doCreateUri\<close> does not call \<^verbatim>\<open>encodeURIComponent\<close>, which the other
  revision does: there a value is put into the query as it is given, so that a value with
  \<^verbatim>\<open>&\<close> adds a key and a value with a \<^verbatim>\<open>%\<close> that no two hexadecimal digits follow does not
  decode.
\<close>

lemma create_value_not_encoded:
  "query (fst (create (mock_env (script [])) ''abc123''
        (Some \<lparr>o_path = Some ''x&y=z'', o_query = None, o_fragment = None\<rparr>) fresh))
     = ''vscode-id=abc123&vscode-path=x&y=z''
   \<and> parse_query (query (fst (create (mock_env (script [])) ''abc123''
        (Some \<lparr>o_path = Some ''x&y=z'', o_query = None, o_fragment = None\<rparr>) fresh)))
     = [(''vscode-id'', ''abc123''), (''vscode-path'', ''x''), (''y'', ''z'')]
   \<and> query (fst (create (mock_env (script [])) ''abc123''
        (Some \<lparr>o_path = Some ''100%'', o_query = None, o_fragment = None\<rparr>) fresh))
     = ''vscode-id=abc123&vscode-path=100%''
   \<and> decodeURIComponent ''100%'' = None"
  by (simp add: create_uri query_text_eq provided_def given_def parse_query_def key_value_def)
subsection \<open>C6: creating a URI starts the polling\<close>

text \<open>
  C6, as amended.
  \<^item> Every call of \<open>create\<close> returns the current location with the path \<^verbatim>\<open>callback\<close> and a
    query that starts with the pair \<^verbatim>\<open>vscode-id=<identifier>\<close>, and the first request it adds
    is issued at the very time of the call (\<open>sent_at = now s\<close>) for \<^verbatim>\<open>toString(true)\<close> of the
    location with the path \<^verbatim>\<open>fetch-callback\<close> and the query \<^verbatim>\<open>vscode-id=<identifier>\<close>.
  \<^item> A call of \<open>create_doFetch\<close>, followed for at least one request, whose optional fields
    hold no lone surrogate returns \<^verbatim>\<open>URI.parse\<close> of the origin followed by \<^verbatim>\<open>/callback?\<close>, the
    pair of the identifier and the pairs of the fields, and the first request it adds is
    issued at the time of the call for the origin followed by
    \<^verbatim>\<open>/fetch-callback?vscode-id=<identifier>\<close>.
  \<^item> A call of \<open>create_doFetch\<close> with a lone surrogate in a field that is given and not empty
    throws \<^verbatim>\<open>URIError\<close>: it returns no URI and issues no request.

  So a call that returns a URI has started the polling.
\<close>

theorem create_starts_polling:
  "fst (create env identifier options s) =
     (URI_parse env (location_href env))
       \<lparr>path := ''callback'', query := query (fst (create env identifier options s))\<rparr>
   \<and> (\<exists>rest. query (fst (create env identifier options s)) = ''vscode-id='' @ identifier @ rest \<and>
         (rest = [] \<or> hd rest = CHR ''&''))
   \<and> (\<exists>rest. requests (snd (create env identifier options s)) =
         requests s @
         \<lparr>url = URI_toString env ((URI_parse env (location_href env))
                  \<lparr>path := ''fetch-callback'', query := ''vscode-id='' @ identifier\<rparr>),
           token = CancellationToken_None, sent_at = now s\<rparr> # rest)
   \<and> (\<forall>fuel.
        ((\<forall>(k, v)\<in>set (provided options). \<not> lone_surrogate v) \<longrightarrow>
           (\<exists>out rest.
              create_doFetch (Suc fuel) env identifier options s =
                Inr (URI_parse env (location_origin env @ ''/callback?'' @
                                      query_text identifier (escaped (provided options))), out) \<and>
              requests (state_of out) =
                requests s @
                \<lparr>url = location_origin env @ ''/fetch-callback?vscode-id='' @ identifier,
                  token = CancellationToken_None, sent_at = now s\<rparr> # rest)) \<and>
        ((\<exists>(k, v)\<in>set (provided options). lone_surrogate v) \<longrightarrow>
           create_doFetch fuel env identifier options s = Inl URIError))"
proof (intro conjI allI impI)
  show "fst (create env identifier options s) =
     (URI_parse env (location_href env))
       \<lparr>path := ''callback'', query := query (fst (create env identifier options s))\<rparr>"
    by (simp add: create_uri)
  show "\<exists>rest. query (fst (create env identifier options s)) = ''vscode-id='' @ identifier @ rest \<and>
         (rest = [] \<or> hd rest = CHR ''&'')"
    using query_text_rest [of "identifier" "provided options"] by (simp add: create_uri)
  show "\<exists>rest. requests (snd (create env identifier options s)) =
         requests s @
         \<lparr>url = URI_toString env ((URI_parse env (location_href env))
                  \<lparr>path := ''fetch-callback'', query := ''vscode-id='' @ identifier\<rparr>),
           token = CancellationToken_None, sent_at = now s\<rparr> # rest"
    unfolding snd_create by (rule pFC_first_request)
next
  fix fuel
  assume ok: "\<forall>(k, v)\<in>set (provided options). \<not> lone_surrogate v"
  from doFetch_first_request [of fuel env "identifier" s] obtain rest where
    "requests (state_of (doFetch (Suc fuel) env identifier s)) =
       requests s @
       \<lparr>url = location_origin env @ ''/fetch-callback?vscode-id='' @ identifier,
         token = CancellationToken_None, sent_at = now s\<rparr> # rest" ..
  with create_doFetch_returns [OF ok, of "Suc fuel" env "identifier" s]
  show "\<exists>out rest.
          create_doFetch (Suc fuel) env identifier options s =
            Inr (URI_parse env (location_origin env @ ''/callback?'' @
                                  query_text identifier (escaped (provided options))), out) \<and>
          requests (state_of out) =
            requests s @
            \<lparr>url = location_origin env @ ''/fetch-callback?vscode-id='' @ identifier,
              token = CancellationToken_None, sent_at = now s\<rparr> # rest"
    by blast
next
  fix fuel
  assume "\<exists>(k, v)\<in>set (provided options). lone_surrogate v"
  then show "create_doFetch fuel env identifier options s = Inl URIError"
    by (rule create_doFetch_throws)
qed

text \<open>
  The identifier \<^verbatim>\<open>abc123\<close> with a path and a query, against a transport that answers at once
  with an empty body; and the same identifier with a path that is a lone surrogate.
\<close>

theorem create_starts_polling_witness:
  "path (fst (create (mock_env (script [])) ''abc123''
       (Some \<lparr>o_path = Some ''/a b&c'', o_query = Some ''x=1'', o_fragment = Some []\<rparr>) fresh))
     = ''callback''
   \<and> (\<exists>rest. requests (snd (create (mock_env (script [])) ''abc123''
          (Some \<lparr>o_path = Some ''/a b&c'', o_query = Some ''x=1'', o_fragment = Some []\<rparr>) fresh))
        = \<lparr>url = ''https://vscode.example/fetch-callback?vscode-id=abc123'',
            token = CancellationToken_None, sent_at = 0\<rparr> # rest)
   \<and> (\<exists>out rest. create_doFetch 1 (mock_env (script [])) ''abc123''
          (Some \<lparr>o_path = Some ''/a b&c'', o_query = Some ''x=1'', o_fragment = Some []\<rparr>) fresh
        = Inr (mock_parse ''https://vscode.example/callback?vscode-id=abc123&vscode-path=%2Fa%20b%26c&vscode-query=x%3D1'', out)
        \<and> requests (state_of out)
          = \<lparr>url = ''https://vscode.example/fetch-callback?vscode-id=abc123'',
              token = CancellationToken_None, sent_at = 0\<rparr> # rest)
   \<and> create_doFetch 1 (mock_env (script [])) ''abc123''
        (Some \<lparr>o_path = Some [CHR 0xED, CHR 0xA0, CHR 0x80], o_query = None, o_fragment = None\<rparr>) fresh
      = Inl URIError"
proof -
  let ?env = "mock_env (script [])"
  let ?o = "Some \<lparr>o_path = Some ''/a b&c'', o_query = Some ''x=1'', o_fragment = Some []\<rparr>"
  let ?bad = "Some \<lparr>o_path = Some [CHR 0xED, CHR 0xA0, CHR 0x80], o_query = None, o_fragment = None\<rparr>"
  note w = create_starts_polling [of ?env "''abc123''" ?o fresh]
  note w' = create_starts_polling [of ?env "''abc123''" ?bad fresh]
  have ok: "\<forall>(k, v)\<in>set (provided ?o). \<not> lone_surrogate v"
    by (simp add: provided_example)
  have bad: "\<exists>(k, v)\<in>set (provided ?bad). lone_surrogate v"
    by (simp add: provided_surrogate)
  from w [THEN conjunct1, THEN arg_cong, of path]
  have a: "path (fst (create ?env ''abc123'' ?o fresh)) = ''callback''"
    by simp
  from w [THEN conjunct2, THEN conjunct2, THEN conjunct1]
  have b: "\<exists>rest. requests (snd (create ?env ''abc123'' ?o fresh))
        = \<lparr>url = ''https://vscode.example/fetch-callback?vscode-id=abc123'',
            token = CancellationToken_None, sent_at = 0\<rparr> # rest"
    by (simp add: mock_env_fields mock_parse_location fresh_fields mock_toString_def
          mock_location_def)
  from w [THEN conjunct2, THEN conjunct2, THEN conjunct2, THEN spec, of 0, THEN conjunct1,
      THEN mp, OF ok]
  have c: "\<exists>out rest. create_doFetch 1 ?env ''abc123'' ?o fresh
        = Inr (mock_parse ''https://vscode.example/callback?vscode-id=abc123&vscode-path=%2Fa%20b%26c&vscode-query=x%3D1'', out)
        \<and> requests (state_of out)
          = \<lparr>url = ''https://vscode.example/fetch-callback?vscode-id=abc123'',
              token = CancellationToken_None, sent_at = 0\<rparr> # rest"
    by (simp add: mock_env_fields fresh_fields provided_example escaped_example query_text_eq)
  from w' [THEN conjunct2, THEN conjunct2, THEN conjunct2, THEN spec, of 1, THEN conjunct2,
      THEN mp, OF bad]
  have d: "create_doFetch 1 ?env ''abc123'' ?bad fresh = Inl URIError" .
  from a b c d show ?thesis
    by (intro conjI)
qed

text \<open>
  C6 as stated fails for \<open>create_doFetch\<close>: with a path that is a lone surrogate,
  \<^verbatim>\<open>encodeURIComponent\<close> throws before \<^verbatim>\<open>doFetch\<close> is called, so the call neither returns a URI
  nor starts a chain of requests.
\<close>

theorem create_throws_counterexample:
  "encodeURIComponent [CHR 0xED, CHR 0xA0, CHR 0x80] = Inl URIError
   \<and> create_doFetch 1 (mock_env (script [])) ''abc123''
        (Some \<lparr>o_path = Some [CHR 0xED, CHR 0xA0, CHR 0x80], o_query = None, o_fragment = None\<rparr>) fresh
      = Inl URIError
   \<and> returned (create_doFetch 1 (mock_env (script [])) ''abc123''
        (Some \<lparr>o_path = Some [CHR 0xED, CHR 0xA0, CHR 0x80], o_query = None, o_fragment = None\<rparr>) fresh)
      = None
   \<and> started (create_doFetch 1 (mock_env (script [])) ''abc123''
        (Some \<lparr>o_path = Some [CHR 0xED, CHR 0xA0, CHR 0x80], o_query = None, o_fragment = None\<rparr>) fresh)
      = None"
  by (simp add: create_doFetch_eq provided_surrogate encodeURIComponent_def returned_def
        started_def)
subsection \<open>C7: one event for each decoded record, in order\<close>

text \<open>
  C7, as amended. The first body that is not empty reaches the session after \<open>N\<close> empty
  ones (for \<open>periodicFetchCallback\<close> this asks that each earlier empty answer was held
  before the timeout) and parses as the array of the records \<open>uris\<close>. Then the events fired
  are the revived elements of \<open>uris\<close>, one for each record and in the order of the array;
  each event goes to the listeners in turn before the next is fired, so that every listener
  (registered once) is handed exactly these URIs, in this order.
\<close>

theorem events_in_decoded_order:
  assumes "\<forall>k<N. \<exists>r. request env (length (requests s) + k) = Inr r \<and> content r = []"
    and "request env (length (requests s) + N) = Inr r" and "content r \<noteq> []"
    and "JSON_parse env (content r) = Inr (map Components uris)"
  shows "((\<forall>k<N. observed_at FETCH_INTERVAL env (length (requests s)) (now s) k - startTime
              < FETCH_TIMEOUT) \<longrightarrow>
          fired (periodicFetchCallback env identifier startTime s)
            = fired s @ map URI_revive uris \<and>
          delivered (periodicFetchCallback env identifier startTime s)
            = delivered s @
              concat (map (\<lambda>uri. map (\<lambda>l. (l, URI_revive uri)) (listeners s)) uris) \<and>
          (\<forall>l\<in>set (listeners s). distinct (listeners s) \<longrightarrow>
             map snd (filter (\<lambda>d. fst d = l)
                        (delivered (periodicFetchCallback env identifier startTime s)))
             = map snd (filter (\<lambda>d. fst d = l) (delivered s)) @ map URI_revive uris))
       \<and> (\<forall>fuel.
            fired (state_of (doFetch (Suc (N + fuel)) env identifier s))
              = fired s @ map URI_revive uris \<and>
            delivered (state_of (doFetch (Suc (N + fuel)) env identifier s))
              = delivered s @
                concat (map (\<lambda>uri. map (\<lambda>l. (l, URI_revive uri)) (listeners s)) uris) \<and>
            (\<forall>l\<in>set (listeners s). distinct (listeners s) \<longrightarrow>
               map snd (filter (\<lambda>d. fst d = l)
                          (delivered (state_of (doFetch (Suc (N + fuel)) env identifier s))))
               = map snd (filter (\<lambda>d. fst d = l) (delivered s)) @ map URI_revive uris))"
proof (intro conjI impI allI ballI)
  assume t: "\<forall>k<N. observed_at FETCH_INTERVAL env (length (requests s)) (now s) k - startTime
              < FETCH_TIMEOUT"
  have a: "\<forall>k<N. \<exists>r. request env (length (requests s) + k) = Inr r \<and> content r = [] \<and>
       observed_at FETCH_INTERVAL env (length (requests s)) (now s) k - startTime < FETCH_TIMEOUT"
    using assms(1) t by blast
  note run = pFC_run_parsed [OF a assms(2,3,4), of "identifier"]
  show "fired (periodicFetchCallback env identifier startTime s) = fired s @ map URI_revive uris"
    by (simp add: run fired_forEach)
  show d: "delivered (periodicFetchCallback env identifier startTime s)
            = delivered s @
              concat (map (\<lambda>uri. map (\<lambda>l. (l, URI_revive uri)) (listeners s)) uris)"
    by (simp add: run delivered_forEach)
  fix l
  assume "l \<in> set (listeners s)" "distinct (listeners s)"
  then show "map snd (filter (\<lambda>d. fst d = l)
                        (delivered (periodicFetchCallback env identifier startTime s)))
             = map snd (filter (\<lambda>d. fst d = l) (delivered s)) @ map URI_revive uris"
    by (simp add: d per_listener)
next
  fix fuel
  note run = doFetch_run_parsed [OF assms, of fuel "identifier"]
  show "fired (state_of (doFetch (Suc (N + fuel)) env identifier s))
              = fired s @ map URI_revive uris"
    by (simp add: run state_of_def fired_forEach)
  show d: "delivered (state_of (doFetch (Suc (N + fuel)) env identifier s))
              = delivered s @
                concat (map (\<lambda>uri. map (\<lambda>l. (l, URI_revive uri)) (listeners s)) uris)"
    by (simp add: run state_of_def delivered_forEach)
  fix l
  assume "l \<in> set (listeners s)" "distinct (listeners s)"
  then show "map snd (filter (\<lambda>d. fst d = l)
                          (delivered (state_of (doFetch (Suc (N + fuel)) env identifier s))))
               = map snd (filter (\<lambda>d. fst d = l) (delivered s)) @ map URI_revive uris"
    by (simp add: d per_listener)
qed

text \<open>
  Two listeners, one empty answer, then the array of the two records of
  \<^verbatim>\<open>https://example.com/a\<close> and \<^verbatim>\<open>https://example.com/b\<close>. Two events are fired, the first
  record first; the first event is delivered to both listeners before the second is, and
  each listener is handed the first URI, then the second.
\<close>

theorem events_in_decoded_order_witness:
  "fired (periodicFetchCallback (mock_env (script [[], two_body])) ''abc123'' 0 two_listeners)
     = [\<lparr>scheme = ''https'', authority = ''example.com'', path = ''/a'', query = [], fragment = []\<rparr>,
        \<lparr>scheme = ''https'', authority = ''example.com'', path = ''/b'', query = [], fragment = []\<rparr>]
   \<and> delivered (periodicFetchCallback (mock_env (script [[], two_body])) ''abc123'' 0 two_listeners)
     = [(0, \<lparr>scheme = ''https'', authority = ''example.com'', path = ''/a'', query = [], fragment = []\<rparr>),
        (1, \<lparr>scheme = ''https'', authority = ''example.com'', path = ''/a'', query = [], fragment = []\<rparr>),
        (0, \<lparr>scheme = ''https'', authority = ''example.com'', path = ''/b'', query = [], fragment = []\<rparr>),
        (1, \<lparr>scheme = ''https'', authority = ''example.com'', path = ''/b'', query = [], fragment = []\<rparr>)]
   \<and> map snd (filter (\<lambda>d. fst d = 1)
        (delivered (periodicFetchCallback (mock_env (script [[], two_body])) ''abc123'' 0 two_listeners)))
     = [\<lparr>scheme = ''https'', authority = ''example.com'', path = ''/a'', query = [], fragment = []\<rparr>,
        \<lparr>scheme = ''https'', authority = ''example.com'', path = ''/b'', query = [], fragment = []\<rparr>]
   \<and> fired (state_of (doFetch 2 (mock_env (script [[], two_body])) ''abc123'' two_listeners))
     = [\<lparr>scheme = ''https'', authority = ''example.com'', path = ''/a'', query = [], fragment = []\<rparr>,
        \<lparr>scheme = ''https'', authority = ''example.com'', path = ''/b'', query = [], fragment = []\<rparr>]
   \<and> delivered (state_of (doFetch 2 (mock_env (script [[], two_body])) ''abc123'' two_listeners))
     = [(0, \<lparr>scheme = ''https'', authority = ''example.com'', path = ''/a'', query = [], fragment = []\<rparr>),
        (1, \<lparr>scheme = ''https'', authority = ''example.com'', path = ''/a'', query = [], fragment = []\<rparr>),
        (0, \<lparr>scheme = ''https'', authority = ''example.com'', path = ''/b'', query = [], fragment = []\<rparr>),
        (1, \<lparr>scheme = ''https'', authority = ''example.com'', path = ''/b'', query = [], fragment = []\<rparr>)]
   \<and> map snd (filter (\<lambda>d. fst d = 0)
        (delivered (state_of (doFetch 2 (mock_env (script [[], two_body])) ''abc123'' two_listeners))))
     = [\<lparr>scheme = ''https'', authority = ''example.com'', path = ''/a'', query = [], fragment = []\<rparr>,
        \<lparr>scheme = ''https'', authority = ''example.com'', path = ''/b'', query = [], fragment = []\<rparr>]"
proof -
  let ?env = "mock_env (script [[], two_body])"
  let ?r = "\<lparr>content = two_body, took = 0\<rparr>"
  let ?a = "\<lparr>scheme = ''https'', authority = ''example.com'', path = ''/a'', query = [], fragment = []\<rparr>"
  let ?b = "\<lparr>scheme = ''https'', authority = ''example.com'', path = ''/b'', query = [], fragment = []\<rparr>"
  have s: "requests two_listeners = []" "now two_listeners = 0" "listeners two_listeners = [0, 1]"
    "fired two_listeners = []" "delivered two_listeners = []"
    by (simp_all add: two_listeners_def fresh_def)
  have h1: "\<forall>k<1. \<exists>r. request ?env (length (requests two_listeners) + k) = Inr r \<and> content r = []"
    by (simp add: mock_env_fields s script_def)
  have h2: "request ?env (length (requests two_listeners) + 1) = Inr ?r"
    by (simp add: mock_env_fields s script_def)
  have h3: "content ?r \<noteq> []"
    by (simp add: two_body_def)
  have h4: "JSON_parse ?env (content ?r) = Inr (map Components two_components)"
    by (simp add: mock_env_fields mock_JSON_parse_def done_body_def two_body_def)
  have t: "\<forall>k<1. observed_at FETCH_INTERVAL ?env (length (requests two_listeners))
                   (now two_listeners) k - 0 < FETCH_TIMEOUT"
    by (simp add: observed_at_script s FETCH_INTERVAL_def FETCH_TIMEOUT_def)
  have l0: "0 \<in> set (listeners two_listeners)" and l1: "1 \<in> set (listeners two_listeners)"
    and d: "distinct (listeners two_listeners)"
    by (simp_all add: s)
  have rev: "map URI_revive two_components = [?a, ?b]"
    by (simp add: two_components_def URI_revive_def orEmpty_def)
  have two: "doFetch 2 ?env ''abc123'' two_listeners
               = doFetch (Suc (1 + 0)) ?env ''abc123'' two_listeners"
    by (simp add: numeral_2_eq_2)
  note w = events_in_decoded_order [OF h1 h2 h3 h4, of 0 "''abc123''"]
  note p = w [THEN conjunct1, THEN mp, OF t]
  note q = w [THEN conjunct2, THEN spec, of 0]
  have f1: "fired (periodicFetchCallback ?env ''abc123'' 0 two_listeners) = [?a, ?b]"
    using p [THEN conjunct1] by (simp add: s rev)
  have d1: "delivered (periodicFetchCallback ?env ''abc123'' 0 two_listeners)
              = [(0, ?a), (1, ?a), (0, ?b), (1, ?b)]"
    using p [THEN conjunct2, THEN conjunct1] by (simp add: s two_components_def URI_revive_def orEmpty_def)
  have e1: "map snd (filter (\<lambda>d. fst d = 1)
              (delivered (periodicFetchCallback ?env ''abc123'' 0 two_listeners))) = [?a, ?b]"
    using p [THEN conjunct2, THEN conjunct2, THEN bspec, OF l1, THEN mp, OF d]
    by (simp add: s rev)
  have f2: "fired (state_of (doFetch 2 ?env ''abc123'' two_listeners)) = [?a, ?b]"
    unfolding two using q [THEN conjunct1] by (simp add: s rev)
  have d2: "delivered (state_of (doFetch 2 ?env ''abc123'' two_listeners))
              = [(0, ?a), (1, ?a), (0, ?b), (1, ?b)]"
    unfolding two using q [THEN conjunct2, THEN conjunct1]
    by (simp add: s two_components_def URI_revive_def orEmpty_def)
  have e2: "map snd (filter (\<lambda>d. fst d = 0)
              (delivered (state_of (doFetch 2 ?env ''abc123'' two_listeners)))) = [?a, ?b]"
    unfolding two using q [THEN conjunct2, THEN conjunct2, THEN bspec, OF l0, THEN mp, OF d]
    by (simp add: s rev)
  from f1 d1 e1 f2 d2 e2 show ?thesis
    by (intro conjI)
qed

text \<open>
  C7 as stated fails once the timeout comes first. The transport answers at once, eleven
  times with an empty body and then with the array of two records: the eleventh empty
  answer is held 5000 ms after the start, so \<open>periodicFetchCallback\<close> stops after 11
  requests and no event is fired or delivered.
\<close>

theorem timeout_before_records_counterexample:
  "script (replicate 11 [] @ [two_body]) 11 = Inr \<lparr>content = two_body, took = 0\<rparr>
   \<and> mock_JSON_parse two_body = Inr (map Components two_components)
   \<and> length two_components = 2
   \<and> length (requests (periodicFetchCallback
        (mock_env (script (replicate 11 [] @ [two_body]))) ''abc123'' 0 two_listeners)) = 11
   \<and> fired (periodicFetchCallback
        (mock_env (script (replicate 11 [] @ [two_body]))) ''abc123'' 0 two_listeners) = []
   \<and> delivered (periodicFetchCallback
        (mock_env (script (replicate 11 [] @ [two_body]))) ''abc123'' 0 two_listeners) = []"
proof -
  let ?bodies = "replicate 11 [] @ [two_body]"
  let ?env = "mock_env (script ?bodies)"
  have s: "requests two_listeners = []" "now two_listeners = 0"
    "fired two_listeners = []" "delivered two_listeners = []"
    by (simp_all add: two_listeners_def fresh_def)
  have empty: "k < 11 \<Longrightarrow> script ?bodies k = Inr \<lparr>content = [], took = 0\<rparr>" for k
    by (simp add: script_def nth_append)
  have h1: "\<forall>k<10. \<exists>r. request ?env (length (requests two_listeners) + k) = Inr r \<and>
       content r = [] \<and>
       observed_at FETCH_INTERVAL ?env (length (requests two_listeners)) (now two_listeners) k - 0
         < FETCH_TIMEOUT"
    by (simp add: mock_env_fields s empty observed_at_script
          FETCH_INTERVAL_def FETCH_TIMEOUT_def)
  have h2: "request ?env (length (requests two_listeners) + 10) = Inr \<lparr>content = [], took = 0\<rparr>"
    by (simp add: mock_env_fields s empty)
  have h3: "\<not> observed_at FETCH_INTERVAL ?env (length (requests two_listeners))
                (now two_listeners) 10 - 0 < FETCH_TIMEOUT"
    by (simp add: observed_at_script s FETCH_INTERVAL_def FETCH_TIMEOUT_def)
  note run = pFC_run_timeout [OF h1 h2 _ h3, of "''abc123''"]
  have "script ?bodies 11 = Inr \<lparr>content = two_body, took = 0\<rparr>"
    by (simp add: script_def nth_append)
  moreover have "mock_JSON_parse two_body = Inr (map Components two_components)"
    by (simp add: mock_JSON_parse_def done_body_def two_body_def)
  moreover have "length two_components = 2"
    by (simp add: two_components_def)
  ultimately show ?thesis
    by (simp add: run s length_attempts)
qed
subsection \<open>C8: how a session ends\<close>

text \<open>
  C8, as amended. A session of \<open>periodicFetchCallback\<close> issues the attempts \<open>0, \<dots>, n\<close>, where
  every attempt before \<open>n\<close> was answered with an empty body held before the timeout (so
  that another request always followed), and attempt \<open>n\<close> was either rejected, or answered
  with a body that is not empty, or answered at or after the timeout. A chain of \<open>doFetch\<close>
  followed for \<open>fuel\<close> requests is either still pending, every answer so far having been
  empty, or has settled at an attempt that was rejected or answered with a body that is
  not empty. Every request carries \<open>CancellationToken_None\<close>, and neither function takes
  anything else by which a caller could stop it.
\<close>

theorem session_ends_only_by:
  "(\<exists>n. (\<forall>k<n. \<exists>r. request env (length (requests s) + k) = Inr r \<and> content r = [] \<and>
             observed_at FETCH_INTERVAL env (length (requests s)) (now s) k - startTime
               < FETCH_TIMEOUT) \<and>
        requests (periodicFetchCallback env identifier startTime s) =
          requests s @ attempts (fetch_url env identifier) FETCH_INTERVAL env
                         (length (requests s)) (now s) (Suc n) \<and>
        ((\<exists>e. request env (length (requests s) + n) = Inl e \<and>
              unhandled (periodicFetchCallback env identifier startTime s) = unhandled s @ [e]) \<or>
         (\<exists>r. request env (length (requests s) + n) = Inr r \<and>
              unhandled (periodicFetchCallback env identifier startTime s) = unhandled s \<and>
              (content r \<noteq> [] \<or>
               FETCH_TIMEOUT \<le> observed_at FETCH_INTERVAL env (length (requests s)) (now s) n
                                 - startTime))) \<and>
        (\<forall>q\<in>set (attempts (fetch_url env identifier) FETCH_INTERVAL env
                     (length (requests s)) (now s) (Suc n)).
           token q = CancellationToken_None))
   \<and> (((\<forall>k<fuel. \<exists>r. request env (length (requests s) + k) = Inr r \<and> content r = []) \<and>
        doFetch fuel env identifier s =
          Pending (idle (fetch_url_raw env identifier) 500 env fuel s))
      \<or> (\<exists>n<fuel. \<exists>final.
           (\<forall>k<n. \<exists>r. request env (length (requests s) + k) = Inr r \<and> content r = []) \<and>
           doFetch fuel env identifier s = Settled final \<and>
           requests final =
             requests s @ attempts (fetch_url_raw env identifier) 500 env
                            (length (requests s)) (now s) (Suc n) \<and>
           ((\<exists>e. request env (length (requests s) + n) = Inl e \<and>
                 unhandled final = unhandled s @ [e]) \<or>
            (\<exists>r. request env (length (requests s) + n) = Inr r \<and> content r \<noteq> [] \<and>
                 unhandled final = unhandled s)) \<and>
           (\<forall>q\<in>set (attempts (fetch_url_raw env identifier) 500 env
                        (length (requests s)) (now s) (Suc n)).
              token q = CancellationToken_None)))"
proof (rule conjI)
  from pFC_ends [of env s startTime "identifier"]
  obtain n where n:
    "\<forall>k<n. \<exists>r. request env (length (requests s) + k) = Inr r \<and> content r = [] \<and>
             observed_at FETCH_INTERVAL env (length (requests s)) (now s) k - startTime
               < FETCH_TIMEOUT"
    "requests (periodicFetchCallback env identifier startTime s) =
          requests s @ attempts (fetch_url env identifier) FETCH_INTERVAL env
                         (length (requests s)) (now s) (Suc n)"
    "(\<exists>e. request env (length (requests s) + n) = Inl e \<and>
              unhandled (periodicFetchCallback env identifier startTime s) = unhandled s @ [e]) \<or>
         (\<exists>r. request env (length (requests s) + n) = Inr r \<and>
              unhandled (periodicFetchCallback env identifier startTime s) = unhandled s \<and>
              (content r \<noteq> [] \<or>
               FETCH_TIMEOUT \<le> observed_at FETCH_INTERVAL env (length (requests s)) (now s) n
                                 - startTime))"
    by blast
  show "\<exists>n. (\<forall>k<n. \<exists>r. request env (length (requests s) + k) = Inr r \<and> content r = [] \<and>
             observed_at FETCH_INTERVAL env (length (requests s)) (now s) k - startTime
               < FETCH_TIMEOUT) \<and>
        requests (periodicFetchCallback env identifier startTime s) =
          requests s @ attempts (fetch_url env identifier) FETCH_INTERVAL env
                         (length (requests s)) (now s) (Suc n) \<and>
        ((\<exists>e. request env (length (requests s) + n) = Inl e \<and>
              unhandled (periodicFetchCallback env identifier startTime s) = unhandled s @ [e]) \<or>
         (\<exists>r. request env (length (requests s) + n) = Inr r \<and>
              unhandled (periodicFetchCallback env identifier startTime s) = unhandled s \<and>
              (content r \<noteq> [] \<or>
               FETCH_TIMEOUT \<le> observed_at FETCH_INTERVAL env (length (requests s)) (now s) n
                                 - startTime))) \<and>
        (\<forall>q\<in>set (attempts (fetch_url env identifier) FETCH_INTERVAL env
                     (length (requests s)) (now s) (Suc n)).
           token q = CancellationToken_None)"
    using n token_attempts by (intro exI [of _ n] conjI ballI) blast+
next
  from doFetch_ends [of fuel env s "identifier"]
  show "((\<forall>k<fuel. \<exists>r. request env (length (requests s) + k) = Inr r \<and> content r = []) \<and>
        doFetch fuel env identifier s =
          Pending (idle (fetch_url_raw env identifier) 500 env fuel s))
      \<or> (\<exists>n<fuel. \<exists>final.
           (\<forall>k<n. \<exists>r. request env (length (requests s) + k) = Inr r \<and> content r = []) \<and>
           doFetch fuel env identifier s = Settled final \<and>
           requests final =
             requests s @ attempts (fetch_url_raw env identifier) 500 env
                            (length (requests s)) (now s) (Suc n) \<and>
           ((\<exists>e. request env (length (requests s) + n) = Inl e \<and>
                 unhandled final = unhandled s @ [e]) \<or>
            (\<exists>r. request env (length (requests s) + n) = Inr r \<and> content r \<noteq> [] \<and>
                 unhandled final = unhandled s)) \<and>
           (\<forall>q\<in>set (attempts (fetch_url_raw env identifier) 500 env
                        (length (requests s)) (now s) (Suc n)).
              token q = CancellationToken_None))"
    using token_attempts by (elim disjE exE conjE) blast+
qed

text \<open>
  C8 as stated leaves out the third way: when the transport rejects the first request, the
  session is over after that one request, before the timeout and without any body.
\<close>

theorem rejected_request_counterexample:
  "request (mock_env unreachable) 0 = Inl RequestFailed
   \<and> length (requests (periodicFetchCallback (mock_env unreachable) ''abc123'' 0 fresh)) = 1
   \<and> now (periodicFetchCallback (mock_env unreachable) ''abc123'' 0 fresh) - 0 < FETCH_TIMEOUT
   \<and> fired (periodicFetchCallback (mock_env unreachable) ''abc123'' 0 fresh) = []
   \<and> unhandled (periodicFetchCallback (mock_env unreachable) ''abc123'' 0 fresh) = [RequestFailed]
   \<and> length (requests (state_of (doFetch 9 (mock_env unreachable) ''abc123'' fresh))) = 1
   \<and> unhandled (state_of (doFetch 9 (mock_env unreachable) ''abc123'' fresh)) = [RequestFailed]"
proof -
  have r: "request (mock_env unreachable) (length (requests fresh)) = Inl RequestFailed"
    by (rule unreachable_fields)
  have "doFetch (Suc 8) (mock_env unreachable) ''abc123'' fresh =
     Settled (fresh\<lparr>requests := requests fresh @
        [\<lparr>url = fetch_url_raw (mock_env unreachable) ''abc123'',
          token = CancellationToken_None, sent_at = now fresh\<rparr>],
       unhandled := unhandled fresh @ [RequestFailed]\<rparr>)"
    by (rule doFetch_rejected [OF r])
  then show ?thesis
    by (simp add: pFC_rejected [OF r] unreachable_fields fresh_fields state_of_def
          FETCH_TIMEOUT_def)
qed


text \<open>In the scenario of C1 the session ends with its fourth request.\<close>

theorem session_ends_only_by_witness:
  "map sent_at (requests (periodicFetchCallback (mock_env (script [[], [], [], done_body])) ''abc123'' 0 fresh))
     = [0, 500, 1000, 1500]
   \<and> map token (requests (periodicFetchCallback (mock_env (script [[], [], [], done_body])) ''abc123'' 0 fresh))
     = [CancellationToken_None, CancellationToken_None, CancellationToken_None, CancellationToken_None]"
proof -
  let ?env = "mock_env (script [[], [], [], done_body])"
  from session_ends_only_by [of ?env fresh 0 "''abc123''" 0]
  obtain n where
    go: "\<forall>k<n. \<exists>r. request ?env (length (requests fresh) + k) = Inr r \<and> content r = [] \<and>
             observed_at FETCH_INTERVAL ?env (length (requests fresh)) (now fresh) k - 0
               < FETCH_TIMEOUT"
    and req: "requests (periodicFetchCallback ?env ''abc123'' 0 fresh) =
          requests fresh @ attempts (fetch_url ?env ''abc123'') FETCH_INTERVAL ?env
                         (length (requests fresh)) (now fresh) (Suc n)"
    and stop: "(\<exists>e. request ?env (length (requests fresh) + n) = Inl e \<and>
              unhandled (periodicFetchCallback ?env ''abc123'' 0 fresh) = unhandled fresh @ [e]) \<or>
         (\<exists>r. request ?env (length (requests fresh) + n) = Inr r \<and>
              unhandled (periodicFetchCallback ?env ''abc123'' 0 fresh) = unhandled fresh \<and>
              (content r \<noteq> [] \<or>
               FETCH_TIMEOUT \<le> observed_at FETCH_INTERVAL ?env (length (requests fresh)) (now fresh) n
                                 - 0))"
    by blast
  have "\<not> 3 < n"
  proof
    assume "3 < n"
    with go obtain r where "request ?env (length (requests fresh) + 3) = Inr r" "content r = []"
      by blast
    then show False
      by (auto simp: mock_env_fields fresh_fields script_def done_body_def)
  qed
  moreover have "\<not> n < 3"
  proof
    assume "n < 3"
    then have "n = 0 \<or> n = 1 \<or> n = 2"
      by arith
    with stop show False
      by (auto simp: mock_env_fields fresh_fields script_def observed_at_script
            FETCH_INTERVAL_def FETCH_TIMEOUT_def)
  qed
  ultimately have "n = 3"
    by arith
  have "attempts u 500 ?env 0 0 (Suc 3) =
      map (\<lambda>t. \<lparr>url = u, token = CancellationToken_None, sent_at = t\<rparr>) [0, 500, 1000, 1500]" for u
    by (simp add: attempts_def sent_time_script upt_rec [of _ "numeral _"] upt_rec [of _ "Suc _"])
  with req \<open>n = 3\<close> show ?thesis
    by (simp add: fresh_fields FETCH_INTERVAL_def)
qed

subsection \<open>C9: an empty optional field\<close>

text \<open>
  C9. An optional field that is given as the empty string is treated as a field that is
  not given: \<open>create\<close> and \<open>create_doFetch\<close> return the same URI and have the same effect
  for both, whatever the other fields are. With all three fields empty the query is the
  pair of the identifier alone.
\<close>

theorem empty_option_is_omitted:
  "create env identifier (Some (opts\<lparr>o_path := Some []\<rparr>)) s
     = create env identifier (Some (opts\<lparr>o_path := None\<rparr>)) s
   \<and> create env identifier (Some (opts\<lparr>o_query := Some []\<rparr>)) s
     = create env identifier (Some (opts\<lparr>o_query := None\<rparr>)) s
   \<and> create env identifier (Some (opts\<lparr>o_fragment := Some []\<rparr>)) s
     = create env identifier (Some (opts\<lparr>o_fragment := None\<rparr>)) s
   \<and> create_doFetch fuel env identifier (Some (opts\<lparr>o_path := Some []\<rparr>)) s
     = create_doFetch fuel env identifier (Some (opts\<lparr>o_path := None\<rparr>)) s
   \<and> create_doFetch fuel env identifier (Some (opts\<lparr>o_query := Some []\<rparr>)) s
     = create_doFetch fuel env identifier (Some (opts\<lparr>o_query := None\<rparr>)) s
   \<and> create_doFetch fuel env identifier (Some (opts\<lparr>o_fragment := Some []\<rparr>)) s
     = create_doFetch fuel env identifier (Some (opts\<lparr>o_fragment := None\<rparr>)) s
   \<and> query (fst (create env identifier
         (Some \<lparr>o_path = Some [], o_query = Some [], o_fragment = Some []\<rparr>) s))
     = ''vscode-id='' @ identifier
   \<and> baseAppUriRaw env identifier
         (Some \<lparr>o_path = Some [], o_query = Some [], o_fragment = Some []\<rparr>)
     = Inr (location_origin env @ ''/callback?vscode-id='' @ identifier)"
  by (simp add: create_eq create_doFetch_eq baseAppUriRaw_eq provided_empty doCreateUri_eq
        query_text_eq escaped_def)

subsection \<open>C10: the identifier is not encoded\<close>

text \<open>
  C10, as amended. The identifier follows \<^verbatim>\<open>vscode-id=\<close> as it is, without any encoding,
  \<^item> in the query of the URI that \<open>create\<close> returns, and in the query of the URI whose
    \<^verbatim>\<open>toString(true)\<close> is the URL of every request of \<open>periodicFetchCallback\<close>;
  \<^item> in the text whose \<^verbatim>\<open>URI.parse\<close> is the URI that \<open>create_doFetch\<close> returns, and in the URL
    of every request of \<open>doFetch\<close>.

  In each of these queries the first pair has the key \<^verbatim>\<open>vscode-id\<close> and, as its value, the
  identifier up to its first \<^verbatim>\<open>&\<close> (in a URL text: up to its first \<^verbatim>\<open>&\<close> or \<^verbatim>\<open>#\<close>). So when the
  identifier contains \<^verbatim>\<open>&\<close>, that value is not the identifier, and the query does not read
  back as the single pair of \<^verbatim>\<open>vscode-id\<close> and the identifier.
\<close>

theorem identifier_verbatim:
  "(\<exists>rest. query (fst (create env identifier options s)) = ''vscode-id='' @ identifier @ rest \<and>
       (rest = [] \<or> hd rest = CHR ''&''))
   \<and> (\<forall>q\<in>set (drop (length (requests s))
                  (requests (periodicFetchCallback env identifier startTime s))).
        url q = URI_toString env ((URI_parse env (location_href env))
                  \<lparr>path := ''fetch-callback'', query := ''vscode-id='' @ identifier\<rparr>))
   \<and> (\<forall>u. returned (create_doFetch fuel env identifier options s) = Some u \<longrightarrow>
        u = URI_parse env (location_origin env @ ''/callback?'' @
                             query_text identifier (escaped (provided options))) \<and>
        (\<exists>rest. query_text identifier (escaped (provided options))
                  = ''vscode-id='' @ identifier @ rest \<and>
           (rest = [] \<or> hd rest = CHR ''&'')))
   \<and> (\<forall>q\<in>set (drop (length (requests s)) (requests (state_of (doFetch fuel env identifier s)))).
        url q = location_origin env @ ''/fetch-callback?vscode-id='' @ identifier)
   \<and> hd (parse_query (query (fst (create env identifier options s))))
       = (''vscode-id'', takeWhile (\<lambda>c. c \<noteq> CHR ''&'') identifier)
   \<and> hd (parse_query (''vscode-id='' @ identifier))
       = (''vscode-id'', takeWhile (\<lambda>c. c \<noteq> CHR ''&'') identifier)
   \<and> (CHR ''?'' \<notin> set (location_origin env) \<longrightarrow>
        hd (parse_query (url_query (location_origin env @ ''/callback?'' @
                                      query_text identifier (escaped (provided options)))))
          = (''vscode-id'', takeWhile (\<lambda>c. c \<noteq> CHR ''&'' \<and> c \<noteq> CHR ''#'') identifier) \<and>
        hd (parse_query (url_query (location_origin env @ ''/fetch-callback?vscode-id='' @ identifier)))
          = (''vscode-id'', takeWhile (\<lambda>c. c \<noteq> CHR ''&'' \<and> c \<noteq> CHR ''#'') identifier))
   \<and> (CHR ''&'' \<in> set identifier \<longrightarrow>
        takeWhile (\<lambda>c. c \<noteq> CHR ''&'') identifier \<noteq> identifier \<and>
        takeWhile (\<lambda>c. c \<noteq> CHR ''&'' \<and> c \<noteq> CHR ''#'') identifier \<noteq> identifier \<and>
        parse_query (query (fst (create env identifier options s))) \<noteq> [(''vscode-id'', identifier)] \<and>
        parse_query (''vscode-id='' @ identifier) \<noteq> [(''vscode-id'', identifier)] \<and>
        (CHR ''?'' \<notin> set (location_origin env) \<longrightarrow>
           parse_query (url_query (location_origin env @ ''/callback?'' @
                                     query_text identifier (escaped (provided options))))
             \<noteq> [(''vscode-id'', identifier)] \<and>
           parse_query (url_query (location_origin env @ ''/fetch-callback?vscode-id='' @ identifier))
             \<noteq> [(''vscode-id'', identifier)]))"
proof -
  let ?cut = "takeWhile (\<lambda>c. c \<noteq> CHR ''&'') identifier"
  let ?cut' = "takeWhile (\<lambda>c. c \<noteq> CHR ''&'' \<and> c \<noteq> CHR ''#'') identifier"
  let ?text = "location_origin env @ ''/callback?'' @
                 query_text identifier (escaped (provided options))"
  let ?fetch = "location_origin env @ ''/fetch-callback?vscode-id='' @ identifier"
  from query_text_rest [of "identifier" "provided options"] obtain rest where
    rest: "query_text identifier (provided options) = ''vscode-id='' @ identifier @ rest"
      "rest = [] \<or> hd rest = CHR ''&''"
    by blast
  from query_text_rest [of "identifier" "escaped (provided options)"] obtain rest' where
    rest': "query_text identifier (escaped (provided options)) = ''vscode-id='' @ identifier @ rest'"
      "rest' = [] \<or> hd rest' = CHR ''&''"
    by blast
  have q: "query (fst (create env identifier options s)) = ''vscode-id='' @ identifier @ rest"
    by (simp add: create_uri rest(1))
  have c1: "\<exists>rest. query (fst (create env identifier options s)) = ''vscode-id='' @ identifier @ rest \<and>
       (rest = [] \<or> hd rest = CHR ''&'')"
    using q rest(2) by blast
  have c2: "\<forall>q\<in>set (drop (length (requests s))
                  (requests (periodicFetchCallback env identifier startTime s))).
        url q = URI_toString env ((URI_parse env (location_href env))
                  \<lparr>path := ''fetch-callback'', query := ''vscode-id='' @ identifier\<rparr>)"
    using pFC_urls by blast
  have c3: "\<forall>u. returned (create_doFetch fuel env identifier options s) = Some u \<longrightarrow>
        u = URI_parse env ?text \<and>
        (\<exists>rest. query_text identifier (escaped (provided options))
                  = ''vscode-id='' @ identifier @ rest \<and>
           (rest = [] \<or> hd rest = CHR ''&''))"
    using returned_cases rest' by blast
  have c4: "\<forall>q\<in>set (drop (length (requests s)) (requests (state_of (doFetch fuel env identifier s)))).
        url q = ?fetch"
    using doFetch_urls by blast
  have c5: "hd (parse_query (query (fst (create env identifier options s)))) = (''vscode-id'', ?cut)"
    unfolding q by (rule first_pair [OF rest(2)])
  have c6: "hd (parse_query (''vscode-id='' @ identifier)) = (''vscode-id'', ?cut)"
    using first_pair [of "[]" "identifier"] by simp
  have c7: "hd (parse_query (url_query ?text)) = (''vscode-id'', ?cut')"
      "hd (parse_query (url_query ?fetch)) = (''vscode-id'', ?cut')"
    if o: "CHR ''?'' \<notin> set (location_origin env)"
  proof -
    have pre: "CHR ''?'' \<notin> set (location_origin env @ ''/callback'')"
      "CHR ''?'' \<notin> set (location_origin env @ ''/fetch-callback'')"
      using o by simp_all
    have "?text = (location_origin env @ ''/callback'') @ CHR ''?'' # ''vscode-id='' @ identifier @ rest'"
      by (simp add: rest'(1))
    then show "hd (parse_query (url_query ?text)) = (''vscode-id'', ?cut')"
      using first_pair_of_url [OF pre(1) rest'(2), of "identifier"] by (simp only:)
    have "?fetch = (location_origin env @ ''/fetch-callback'') @ CHR ''?'' # ''vscode-id='' @ identifier @ []"
      by simp
    then show "hd (parse_query (url_query ?fetch)) = (''vscode-id'', ?cut')"
      using first_pair_of_url [OF pre(2), of "[]" "identifier"] by (simp only:) simp
  qed
  have single: "hd (parse_query x) = (''vscode-id'', v) \<Longrightarrow> v \<noteq> identifier \<Longrightarrow>
      parse_query x \<noteq> [(''vscode-id'', identifier)]" for x v
    by auto
  have c8: "?cut \<noteq> identifier \<and> ?cut' \<noteq> identifier \<and>
        parse_query (query (fst (create env identifier options s))) \<noteq> [(''vscode-id'', identifier)] \<and>
        parse_query (''vscode-id='' @ identifier) \<noteq> [(''vscode-id'', identifier)] \<and>
        (CHR ''?'' \<notin> set (location_origin env) \<longrightarrow>
           parse_query (url_query ?text) \<noteq> [(''vscode-id'', identifier)] \<and>
           parse_query (url_query ?fetch) \<noteq> [(''vscode-id'', identifier)])"
    if amp: "CHR ''&'' \<in> set identifier"
  proof (intro conjI impI)
    show cut: "?cut \<noteq> identifier" and cut': "?cut' \<noteq> identifier"
      using amp by (rule cut_identifier)+
    show "parse_query (query (fst (create env identifier options s))) \<noteq> [(''vscode-id'', identifier)]"
      using c5 cut by (rule single)
    show "parse_query (''vscode-id='' @ identifier) \<noteq> [(''vscode-id'', identifier)]"
      using c6 cut by (rule single)
    assume o: "CHR ''?'' \<notin> set (location_origin env)"
    show "parse_query (url_query ?text) \<noteq> [(''vscode-id'', identifier)]"
      using c7(1) [OF o] cut' by (rule single)
    show "parse_query (url_query ?fetch) \<noteq> [(''vscode-id'', identifier)]"
      using c7(2) [OF o] cut' by (rule single)
  qed
  from c7 have c7': "CHR ''?'' \<notin> set (location_origin env) \<longrightarrow>
        hd (parse_query (url_query ?text)) = (''vscode-id'', ?cut') \<and>
        hd (parse_query (url_query ?fetch)) = (''vscode-id'', ?cut')"
    by blast
  from c8 have c8': "CHR ''&'' \<in> set identifier \<longrightarrow>
        ?cut \<noteq> identifier \<and> ?cut' \<noteq> identifier \<and>
        parse_query (query (fst (create env identifier options s))) \<noteq> [(''vscode-id'', identifier)] \<and>
        parse_query (''vscode-id='' @ identifier) \<noteq> [(''vscode-id'', identifier)] \<and>
        (CHR ''?'' \<notin> set (location_origin env) \<longrightarrow>
           parse_query (url_query ?text) \<noteq> [(''vscode-id'', identifier)] \<and>
           parse_query (url_query ?fetch) \<noteq> [(''vscode-id'', identifier)])"
    by blast
  from c1 c2 c3 c4 c5 c6 c7' c8' show ?thesis
    by (intro conjI)
qed

text \<open>
  The identifier \<^verbatim>\<open>a&b\<close>, on the mocked platform, whose \<^verbatim>\<open>toString(true)\<close> and \<^verbatim>\<open>URI.parse\<close> leave
  the query as it is: the identifier stands in both request URLs and in the text of the
  callback URI as it is, and each query reads back with the value \<^verbatim>\<open>a\<close> for \<^verbatim>\<open>vscode-id\<close>.
\<close>

theorem identifier_verbatim_witness:
  "url (hd (requests (periodicFetchCallback (mock_env (script [])) ''a&b'' 0 fresh)))
     = ''https://vscode.example/fetch-callback?vscode-id=a&b''
   \<and> url (hd (requests (state_of (doFetch 1 (mock_env (script [])) ''a&b'' fresh))))
     = ''https://vscode.example/fetch-callback?vscode-id=a&b''
   \<and> query (fst (create (mock_env (script [])) ''a&b'' None fresh)) = ''vscode-id=a&b''
   \<and> returned (create_doFetch 1 (mock_env (script [])) ''a&b'' None fresh)
     = Some (mock_parse ''https://vscode.example/callback?vscode-id=a&b'')
   \<and> hd (parse_query (query (fst (create (mock_env (script [])) ''a&b'' None fresh))))
     = (''vscode-id'', ''a'')
   \<and> parse_query (query (fst (create (mock_env (script [])) ''a&b'' None fresh)))
     \<noteq> [(''vscode-id'', ''a&b'')]
   \<and> hd (parse_query (url_query ''https://vscode.example/fetch-callback?vscode-id=a&b''))
     = (''vscode-id'', ''a'')
   \<and> parse_query (url_query ''https://vscode.example/callback?vscode-id=a&b'')
     \<noteq> [(''vscode-id'', ''a&b'')]"
proof -
  let ?env = "mock_env (script [])"
  note w = identifier_verbatim [of ?env "''a&b''" None fresh 0 1]
  have amp: "CHR ''&'' \<in> set ''a&b''"
    by simp
  have o: "CHR ''?'' \<notin> set (location_origin ?env)"
    by (simp add: mock_env_fields)
  have none: "provided None = []"
    by (simp add: provided_def)
  have t: "location_origin ?env @ ''/callback?'' @ query_text ''a&b'' (escaped (provided None))
             = ''https://vscode.example/callback?vscode-id=a&b''"
    "location_origin ?env @ ''/fetch-callback?vscode-id='' @ ''a&b''
             = ''https://vscode.example/fetch-callback?vscode-id=a&b''"
    by (simp_all add: mock_env_fields none escaped_def query_text_eq)
  from pFC_first_request [of ?env "''a&b''" 0 fresh]
  have "hd (requests (periodicFetchCallback ?env ''a&b'' 0 fresh))
          \<in> set (drop (length (requests fresh)) (requests (periodicFetchCallback ?env ''a&b'' 0 fresh)))"
    by (auto simp: fresh_fields)
  from w [THEN conjunct2, THEN conjunct1, THEN bspec, OF this]
  have a: "url (hd (requests (periodicFetchCallback ?env ''a&b'' 0 fresh)))
     = ''https://vscode.example/fetch-callback?vscode-id=a&b''"
    by (simp add: mock_env_fields mock_parse_location mock_toString_def mock_location_def)
  from doFetch_first_request [of 0 ?env "''a&b''" fresh]
  have "hd (requests (state_of (doFetch 1 ?env ''a&b'' fresh)))
          \<in> set (drop (length (requests fresh)) (requests (state_of (doFetch 1 ?env ''a&b'' fresh))))"
    by (auto simp: fresh_fields)
  from w [THEN conjunct2, THEN conjunct2, THEN conjunct2, THEN conjunct1, THEN bspec, OF this]
  have b: "url (hd (requests (state_of (doFetch 1 ?env ''a&b'' fresh))))
     = ''https://vscode.example/fetch-callback?vscode-id=a&b''"
    by (simp add: mock_env_fields)
  from w [THEN conjunct1]
  have c: "query (fst (create ?env ''a&b'' None fresh)) = ''vscode-id=a&b''"
    by (auto simp: create_uri none query_text_eq)
  have ok: "\<not> (\<exists>(k, v)\<in>set (provided None). lone_surrogate v)"
    by (simp add: none)
  have "returned (create_doFetch 1 ?env ''a&b'' None fresh) \<noteq> None"
    by (simp add: create_doFetch_eq returned_def none)
  then obtain u where u: "returned (create_doFetch 1 ?env ''a&b'' None fresh) = Some u"
    by blast
  from w [THEN conjunct2, THEN conjunct2, THEN conjunct1, THEN spec, THEN mp, OF u, THEN conjunct1]
  have "u = mock_parse ''https://vscode.example/callback?vscode-id=a&b''"
    unfolding t by (simp add: mock_env_fields)
  with u have d: "returned (create_doFetch 1 ?env ''a&b'' None fresh)
     = Some (mock_parse ''https://vscode.example/callback?vscode-id=a&b'')"
    by simp
  from w [THEN conjunct2, THEN conjunct2, THEN conjunct2, THEN conjunct2, THEN conjunct1]
  have e: "hd (parse_query (query (fst (create ?env ''a&b'' None fresh)))) = (''vscode-id'', ''a'')"
    by simp
  note last = w [THEN conjunct2, THEN conjunct2, THEN conjunct2, THEN conjunct2, THEN conjunct2,
      THEN conjunct2, THEN conjunct2, THEN mp, OF amp]
  from last [THEN conjunct2, THEN conjunct2, THEN conjunct1]
  have f: "parse_query (query (fst (create ?env ''a&b'' None fresh))) \<noteq> [(''vscode-id'', ''a&b'')]" .
  from w [THEN conjunct2, THEN conjunct2, THEN conjunct2, THEN conjunct2, THEN conjunct2,
      THEN conjunct2, THEN conjunct1, THEN mp, OF o, THEN conjunct2]
  have g: "hd (parse_query (url_query ''https://vscode.example/fetch-callback?vscode-id=a&b''))
     = (''vscode-id'', ''a'')"
    unfolding t by simp
  from last [THEN conjunct2, THEN conjunct2, THEN conjunct2, THEN conjunct2, THEN mp, OF o,
      THEN conjunct1]
  have h: "parse_query (url_query ''https://vscode.example/callback?vscode-id=a&b'')
     \<noteq> [(''vscode-id'', ''a&b'')]"
    unfolding t .
  from a b c d e f g h show ?thesis
    by (intro conjI)
qed

text \<open>
  C10 as stated fails for \<^verbatim>\<open>=\<close>: the identifier \<^verbatim>\<open>a=b\<close> gives the query \<^verbatim>\<open>vscode-id=a=b\<close>, which
  is the single pair of \<^verbatim>\<open>vscode-id\<close> and \<^verbatim>\<open>a=b\<close>. And what reaches a request URL of
  \<open>periodicFetchCallback\<close>, or the URI that \<open>create_doFetch\<close> returns, depends on the platform:
  where \<^verbatim>\<open>toString(true)\<close> escapes \<^verbatim>\<open>#\<close> in a query, the identifier \<^verbatim>\<open>a#b\<close> is requested as
  \<^verbatim>\<open>a%23b\<close>; where \<^verbatim>\<open>URI.parse\<close> percent-decodes the query, the identifier \<^verbatim>\<open>a%41\<close> is returned as
  \<^verbatim>\<open>aA\<close>.
\<close>

theorem identifier_not_verbatim_counterexample:
  "CHR ''='' \<in> set ''a=b''
   \<and> query (fst (create (mock_env (script [])) ''a=b'' None fresh)) = ''vscode-id=a=b''
   \<and> parse_query (query (fst (create (mock_env (script [])) ''a=b'' None fresh)))
     = [(''vscode-id'', ''a=b'')]
   \<and> map url (requests (periodicFetchCallback
        ((mock_env (script [done_body]))\<lparr>URI_toString := escaping_toString\<rparr>) ''a#b'' 0 fresh))
     = [''https://vscode.example/fetch-callback?vscode-id=a%23b'']
   \<and> returned (create_doFetch 1
        ((mock_env (script []))\<lparr>URI_parse := decoding_parse\<rparr>) ''a%41'' None fresh)
     = Some (decoding_parse ''https://vscode.example/callback?vscode-id=a%41'')
   \<and> query (decoding_parse ''https://vscode.example/callback?vscode-id=a%41'') = ''vscode-id=aA''"
proof -
  have a: "query (fst (create (mock_env (script [])) ''a=b'' None fresh)) = ''vscode-id=a=b''"
    "parse_query (query (fst (create (mock_env (script [])) ''a=b'' None fresh)))
     = [(''vscode-id'', ''a=b'')]"
    by (simp_all add: create_uri query_text_eq provided_def parse_query_def key_value_def)
  let ?env = "(mock_env (script [done_body]))\<lparr>URI_toString := escaping_toString\<rparr>"
  let ?r = "\<lparr>content = done_body, took = 0\<rparr>"
  have g1: "\<forall>k<0. \<exists>r. request ?env (length (requests fresh) + k) = Inr r \<and> content r = [] \<and>
       observed_at FETCH_INTERVAL ?env (length (requests fresh)) (now fresh) k - 0 < FETCH_TIMEOUT"
    by simp
  have g2: "request ?env (length (requests fresh) + 0) = Inr ?r"
    by (simp add: mock_env_def fresh_fields script_def)
  have g3: "content ?r \<noteq> []"
    by (simp add: done_body_def)
  have u: "fetch_url ?env ''a#b'' = ''https://vscode.example/fetch-callback?vscode-id=a%23b''"
    by (simp add: doCreateUri_eq mock_env_def mock_parse_location escaping_toString_def
          mock_toString_def mock_location_def)
  have b: "map url (requests (periodicFetchCallback ?env ''a#b'' 0 fresh))
     = [''https://vscode.example/fetch-callback?vscode-id=a%23b'']"
    unfolding pFC_run_answered [OF g1 g2 g3, of "''a#b''"] u
    by (simp add: try_catch_fields fresh_fields attempts_def)
  have t: "url_query ''https://vscode.example/callback?vscode-id=a%41'' = ''vscode-id=a%41''"
    by (simp add: url_query_def)
  have dec: "decodeURIComponent ''vscode-id=a%41'' = Some ''vscode-id=aA''"
    by code_simp
  have ret: "returned (create_doFetch 1 ((mock_env (script []))\<lparr>URI_parse := decoding_parse\<rparr>)
                ''a%41'' None fresh)
     = Some (decoding_parse ''https://vscode.example/callback?vscode-id=a%41'')"
    by (simp add: create_doFetch_eq returned_def provided_def escaped_def query_text_eq
          mock_env_def)
  have c: "query (decoding_parse ''https://vscode.example/callback?vscode-id=a%41'') = ''vscode-id=aA''"
    unfolding decoding_parse_def t dec by simp
  have eq: "CHR ''='' \<in> set ''a=b''"
    by simp
  from eq a b ret c show ?thesis
    by (intro conjI)
qed

end
